theory Spec2Isabelle
  imports Complex_Main "HOL-Library.Word"
begin

section \<open>CMC Genesys item size analysis: the classification engine of Genesys_app.py\<close>

text \<open>
  The engine is the body of the \<^verbatim>\<open>Process File\<close> branch (lines 59 to 109) together with
  \<^verbatim>\<open>pick_cardboard\<close> (lines 29 to 38). It works on whole columns; the model keeps it
  column-wise.

  Conventions of the model.
  \<^item> A numeric column is a list of entries of type \<open>num\<close>. An entry of an int64 column
    is a 64-bit word, and its arithmetic wraps around. An entry of a float64 column is a
    finite double, given by the real number it holds, or an infinity, or NaN, which is
    the missing value of the table library. Float arithmetic is the exact operation
    followed by rounding to the nearest double, ties to even (\<open>binary64\<close>), with the
    IEEE rules for infinities and NaN. The two zeros of a double are not told apart.
  \<^item> A column (Series) is the list of its values in index order. The frame read from a
    file carries the default index \<open>0, 1, ...\<close>, and every Series of a run is a column
    of that frame or a selection of it, so alignment by label is alignment by position.
  \<^item> A raised exception is the \<open>Inl\<close> of a sum type.
  \<^item> The integers of a table are within the range of int64, and its cells are numbers,
    texts or empty; columns of other types (booleans, dates, unsigned 64-bit integers)
    are outside the model.
\<close>

subsection \<open>Constants (lines 5 to 9)\<close>

definition MAX_WIDTH :: int where
  "MAX_WIDTH = 22"

definition MAX_LENGTH :: int where
  "MAX_LENGTH = 15"

definition MAX_HEIGHT :: int where
  "MAX_HEIGHT = 11"

definition CARDBOARD_OPTIONS :: "int list" where
  "CARDBOARD_OPTIONS = [23, 39]"

subsection \<open>Python values the engine uses\<close>

datatype py_error = KeyError string | ZeroDivisionError

text \<open>Sequencing of calls that may raise: the first exception ends the run.\<close>

definition and_then :: "py_error + 'a \<Rightarrow> ('a \<Rightarrow> py_error + 'b) \<Rightarrow> py_error + 'b" where
  "and_then r f = (case r of Inl e \<Rightarrow> Inl e | Inr v \<Rightarrow> f v)"

text \<open>\<^verbatim>\<open>str\<close> of an integer: decimal digits, a minus sign for a negative number.\<close>

definition digit_chr :: "nat \<Rightarrow> char" where
  "digit_chr d = ''0123456789'' ! d"

function str_nat :: "nat \<Rightarrow> string" where
  "str_nat n = (if n < 10 then [digit_chr n] else str_nat (n div 10) @ [digit_chr (n mod 10)])"
  by pat_completeness auto
termination
  by (relation "measure id") auto

definition py_str :: "int \<Rightarrow> string" where
  "py_str i = (if i < 0 then CHR ''-'' # str_nat (nat (- i)) else str_nat (nat i))"

subsection \<open>Numbers of the table library and of Python\<close>

text \<open>
  A double: a finite one, given by the real number it holds, an infinity, or NaN. An
  entry of a numeric column: a 64-bit integer or a double.
\<close>

datatype f64 = Fin real | PosInf | NegInf | NaN

datatype num = I64 "64 word" | F64 f64

text \<open>The real number an entry holds, when it holds one.\<close>

definition number_of :: "num \<Rightarrow> real option" where
  "number_of v =
     (case v of I64 i \<Rightarrow> Some (real_of_int (sint i)) | F64 (Fin r) \<Rightarrow> Some r | _ \<Rightarrow> None)"

text \<open>Rounding to the nearest integer, a tie going to the even neighbour.\<close>

definition round_half_even :: "real \<Rightarrow> int" where
  "round_half_even y =
     (let f = \<lfloor>y\<rfloor>;
          d = y - of_int f
      in if d < 1 / 2 then f
         else if 1 / 2 < d then f + 1
         else if even f then f
         else f + 1)"

definition pow2 :: "int \<Rightarrow> real" where
  "pow2 k = (if 0 \<le> k then 2 ^ nat k else 1 / 2 ^ nat (- k))"

text \<open>
  Rounding of a real number to a double (IEEE 754 binary64, round to nearest, ties to
  even): 53 significant bits, the exponent of the leading bit at least -1022 (below,
  the subnormal spacing \<open>2 ^ -1074\<close>), and an infinity when the rounded magnitude
  reaches \<open>2 ^ 1024\<close>.
\<close>

definition binary64 :: "real \<Rightarrow> f64" where
  "binary64 x =
     (if x = 0 then Fin 0
      else
        let e = max \<lfloor>log 2 \<bar>x\<bar>\<rfloor> (- 1022);
            q = pow2 (e - 52);
            y = of_int (round_half_even (x / q)) * q
        in if pow2 1024 \<le> \<bar>y\<bar> then (if 0 < x then PosInf else NegInf) else Fin y)"

text \<open>Addition and multiplication of two doubles.\<close>

fun f_add :: "f64 \<Rightarrow> f64 \<Rightarrow> f64" where
  "f_add (Fin a) (Fin b) = binary64 (a + b)"
| "f_add NaN _ = NaN"
| "f_add _ NaN = NaN"
| "f_add PosInf NegInf = NaN"
| "f_add NegInf PosInf = NaN"
| "f_add PosInf _ = PosInf"
| "f_add _ PosInf = PosInf"
| "f_add NegInf _ = NegInf"
| "f_add _ NegInf = NegInf"

fun f_mul :: "f64 \<Rightarrow> f64 \<Rightarrow> f64" where
  "f_mul (Fin a) (Fin b) = binary64 (a * b)"
| "f_mul NaN _ = NaN"
| "f_mul _ NaN = NaN"
| "f_mul PosInf (Fin b) = (if b = 0 then NaN else if 0 < b then PosInf else NegInf)"
| "f_mul NegInf (Fin b) = (if b = 0 then NaN else if 0 < b then NegInf else PosInf)"
| "f_mul (Fin a) PosInf = (if a = 0 then NaN else if 0 < a then PosInf else NegInf)"
| "f_mul (Fin a) NegInf = (if a = 0 then NaN else if 0 < a then NegInf else PosInf)"
| "f_mul PosInf PosInf = PosInf"
| "f_mul NegInf NegInf = PosInf"
| "f_mul PosInf NegInf = NegInf"
| "f_mul NegInf PosInf = NegInf"

text \<open>\<^verbatim>\<open>x <= c\<close> of a double and a Python integer: false for NaN.\<close>

definition f_le_int :: "f64 \<Rightarrow> int \<Rightarrow> bool" where
  "f_le_int x c =
     (case x of Fin r \<Rightarrow> r \<le> of_int c | NegInf \<Rightarrow> True | PosInf \<Rightarrow> False | NaN \<Rightarrow> False)"

text \<open>An int64 entry in an operation with a float64 entry is converted to a double.\<close>

definition to_float :: "num \<Rightarrow> f64" where
  "to_float v = (case v of I64 i \<Rightarrow> binary64 (real_of_int (sint i)) | F64 x \<Rightarrow> x)"

text \<open>
  The operations on entries: two int64 entries are combined in 64-bit arithmetic, which
  wraps around; otherwise both are doubles.
\<close>

definition num_add :: "num \<Rightarrow> num \<Rightarrow> num" where
  "num_add a b =
     (case (a, b) of (I64 i, I64 j) \<Rightarrow> I64 (i + j)
      | _ \<Rightarrow> F64 (f_add (to_float a) (to_float b)))"

definition num_mul :: "num \<Rightarrow> num \<Rightarrow> num" where
  "num_mul a b =
     (case (a, b) of (I64 i, I64 j) \<Rightarrow> I64 (i * j)
      | _ \<Rightarrow> F64 (f_mul (to_float a) (to_float b)))"

definition num_le_int :: "num \<Rightarrow> int \<Rightarrow> bool" where
  "num_le_int v c = (case v of I64 i \<Rightarrow> sint i \<le> c | F64 x \<Rightarrow> f_le_int x c)"

text \<open>
  Python's true division \<^verbatim>\<open>a / b\<close> of two integers: the quotient rounded to a double;
  it raises on a zero divisor.
\<close>

definition py_truediv :: "nat \<Rightarrow> nat \<Rightarrow> py_error + f64" where
  "py_truediv a b = (if b = 0 then Inl ZeroDivisionError else Inr (binary64 (real a / real b)))"

text \<open>
  Python's \<^verbatim>\<open>round(x, 2)\<close> of a double: the exact value is rounded to hundredths, a tie
  going to the even neighbour, and the result is the nearest double.
\<close>

definition py_round2 :: "f64 \<Rightarrow> f64" where
  "py_round2 x =
     (case x of Fin r \<Rightarrow> binary64 (of_int (round_half_even (r * 100)) / 100) | _ \<Rightarrow> x)"

subsection \<open>The uploaded table\<close>

text \<open>
  A raw cell is a number, a text, or empty. A table has its column names and its rows;
  a row gives the cell under each column name, so that all columns have the length of
  the table.
\<close>

datatype cell = Num num | Str string | NA

record dataframe =
  columns :: "string list"
  rows :: "(string \<Rightarrow> cell) list"

definition len_df :: "dataframe \<Rightarrow> nat" where
  "len_df df = length (rows df)"

text \<open>\<^verbatim>\<open>df[col]\<close>: the column, or \<^verbatim>\<open>KeyError\<close> when the table has no such column.\<close>

definition getitem :: "dataframe \<Rightarrow> string \<Rightarrow> py_error + cell list" where
  "getitem df col =
     (if col \<in> set (columns df) then Inr (map (\<lambda>r. r col) (rows df)) else Inl (KeyError col))"

subsection \<open>Column operations of the table library\<close>

text \<open>
  \<^verbatim>\<open>pd.to_numeric(s, errors="coerce")\<close>, cell by cell: a number stays, a text is parsed,
  and whatever does not parse becomes NaN. How a text parses is a parameter. The column
  is an int64 column when every cell gives an integer; otherwise it is a float64
  column, and the integers in it are converted to doubles.
\<close>

definition coerce :: "(string \<Rightarrow> num) \<Rightarrow> cell \<Rightarrow> num" where
  "coerce parse c = (case c of Num x \<Rightarrow> x | Str s \<Rightarrow> parse s | NA \<Rightarrow> F64 NaN)"

definition is_int64 :: "num \<Rightarrow> bool" where
  "is_int64 v = (case v of I64 _ \<Rightarrow> True | F64 _ \<Rightarrow> False)"

definition to_numeric :: "(string \<Rightarrow> num) \<Rightarrow> cell list \<Rightarrow> num list" where
  "to_numeric parse s =
     (let vs = map (coerce parse) s
      in if list_all is_int64 vs then vs else map (\<lambda>v. F64 (to_float v)) vs)"

definition isna :: "num list \<Rightarrow> bool list" where
  "isna s = map (\<lambda>x. x = F64 NaN) s"

definition mask_or :: "bool list \<Rightarrow> bool list \<Rightarrow> bool list" where
  "mask_or a b = map (\<lambda>(x, y). x \<or> y) (zip a b)"

definition mask_and :: "bool list \<Rightarrow> bool list \<Rightarrow> bool list" where
  "mask_and a b = map (\<lambda>(x, y). x \<and> y) (zip a b)"

definition mask_not :: "bool list \<Rightarrow> bool list" where
  "mask_not a = map Not a"

text \<open>\<^verbatim>\<open>DataFrame({...}).isna().any(axis=1)\<close> over the listed columns.\<close>

definition isna_any :: "num list list \<Rightarrow> bool list" where
  "isna_any cols = (case map isna cols of [] \<Rightarrow> [] | c # cs \<Rightarrow> foldl mask_or c cs)"

text \<open>Arithmetic on numeric columns, entry by entry.\<close>

definition series_mul :: "num list \<Rightarrow> num list \<Rightarrow> num list" where
  "series_mul a b = map (\<lambda>(x, y). num_mul x y) (zip a b)"

definition series_add :: "num list \<Rightarrow> num list \<Rightarrow> num list" where
  "series_add a b = map (\<lambda>(x, y). num_add x y) (zip a b)"

text \<open>\<^verbatim>\<open>s <= c\<close>: a comparison with NaN is false.\<close>

definition series_le :: "num list \<Rightarrow> int \<Rightarrow> bool list" where
  "series_le s c = map (\<lambda>x. num_le_int x c) s"

text \<open>\<^verbatim>\<open>s.where(cond, other)\<close>: keep the value where the condition holds.\<close>

definition series_where :: "'a list \<Rightarrow> bool list \<Rightarrow> 'a \<Rightarrow> 'a list" where
  "series_where s cond other = map (\<lambda>(x, c). if c then x else other) (zip s cond)"

text \<open>\<^verbatim>\<open>s.loc[mask] = v\<close> with a scalar.\<close>

definition loc_set :: "'a list \<Rightarrow> bool list \<Rightarrow> 'a \<Rightarrow> 'a list" where
  "loc_set s msk v = map (\<lambda>(x, m). if m then v else x) (zip s msk)"

text \<open>\<^verbatim>\<open>s.loc[mask]\<close>: the selected values, in order.\<close>

definition loc_get :: "'a list \<Rightarrow> bool list \<Rightarrow> 'a list" where
  "loc_get s msk = map fst (filter snd (zip s msk))"

text \<open>
  \<^verbatim>\<open>s.loc[mask] = t\<close> with a Series whose index is the selected part of the index of
  \<^verbatim>\<open>s\<close>: the values of \<^verbatim>\<open>t\<close> go to the selected positions in order. (The engine only
  assigns a Series of exactly that index; the model leaves a selected position unchanged
  when \<^verbatim>\<open>t\<close> is exhausted.)
\<close>

fun loc_assign :: "'a list \<Rightarrow> bool list \<Rightarrow> 'a list \<Rightarrow> 'a list" where
  "loc_assign (x # xs) (m # ms) vs =
     (if m then (case vs of [] \<Rightarrow> x # loc_assign xs ms []
                 | v # vs' \<Rightarrow> v # loc_assign xs ms vs')
      else x # loc_assign xs ms vs)"
| "loc_assign xs _ _ = xs"

subsection \<open>pick_cardboard (lines 29 to 38)\<close>

definition pick_cardboard :: "num list \<Rightarrow> num list \<Rightarrow> string list" where
  "pick_cardboard width_series height_series =
     (let wrap = series_add width_series height_series;
          result = replicate (length wrap) ''No Fit'';
          result = loc_set result (series_le wrap (CARDBOARD_OPTIONS ! 1))
                     (py_str (CARDBOARD_OPTIONS ! 1));
          result = loc_set result (series_le wrap (CARDBOARD_OPTIONS ! 0))
                     (py_str (CARDBOARD_OPTIONS ! 0))
      in result)"

subsection \<open>The Process File branch (lines 59 to 109)\<close>

record df_out =
  Item_ID :: "cell list"
  Height :: "num list"
  Width :: "num list"
  Length :: "num list"
  Volume :: "num list"
  Status :: "string list"
  Optimal_Cardboard_Width :: "string list"

record summary =
  Total_Items :: nat
  OK_Count :: nat
  OK_pct :: f64
  No_OK_Count :: nat
  No_OK_pct :: f64

text \<open>Line 64.\<close>

definition invalid_rows :: "num list \<Rightarrow> num list \<Rightarrow> num list \<Rightarrow> bool list" where
  "invalid_rows height width length' = isna_any [height, width, length']"

text \<open>
  Lines 67 and 68. The product is taken from the left, \<^verbatim>\<open>(height * width) * length\<close>; the
  missing value written over the invalid rows is NaN in a float64 column.
\<close>

definition volume_col :: "num list \<Rightarrow> num list \<Rightarrow> num list \<Rightarrow> bool list \<Rightarrow> num list" where
  "volume_col height width length' invalid =
     (let volume = series_mul (series_mul height width) length'
      in series_where volume (mask_not invalid) (F64 NaN))"

text \<open>Lines 71 to 75.\<close>

definition fits_machine :: "num list \<Rightarrow> num list \<Rightarrow> num list \<Rightarrow> bool list" where
  "fits_machine height width length' =
     mask_and (mask_and (series_le height MAX_HEIGHT) (series_le width MAX_WIDTH))
       (series_le length' MAX_LENGTH)"

text \<open>Lines 77 and 78.\<close>

definition status_col :: "nat \<Rightarrow> bool list \<Rightarrow> bool list \<Rightarrow> string list" where
  "status_col n fits invalid =
     (let status = replicate n ''No OK''
      in loc_set status (mask_and fits (mask_not invalid)) ''OK'')"

text \<open>Lines 81 to 86.\<close>

definition cardboard_width_col :: "nat \<Rightarrow> num list \<Rightarrow> num list \<Rightarrow> string list" where
  "cardboard_width_col n height width =
     (let cardboard_width = replicate n ''No Fit'';
          valid_for_cardboard = mask_not (isna_any [height, width])
      in loc_assign cardboard_width valid_for_cardboard
           (pick_cardboard (loc_get width valid_for_cardboard)
              (loc_get height valid_for_cardboard)))"

text \<open>
  Lines 100 to 109. \<^verbatim>\<open>count / total * 100\<close> is a division of two integers, rounded to a
  double, and then the product of that double with 100, rounded again.
\<close>

definition summarize :: "df_out \<Rightarrow> py_error + summary" where
  "summarize out =
     (let total = length (Item_ID out);
          ok_count = length (filter (\<lambda>s. s = ''OK'') (Status out));
          no_ok_count = length (filter (\<lambda>s. s = ''No OK'') (Status out))
      in and_then (if total \<noteq> 0
                   then and_then (py_truediv ok_count total) (\<lambda>q. Inr (f_mul q (Fin 100)))
                   else Inr (Fin 0))
           (\<lambda>ok_pct.
              and_then (if total \<noteq> 0
                        then and_then (py_truediv no_ok_count total)
                               (\<lambda>q. Inr (f_mul q (Fin 100)))
                        else Inr (Fin 0))
                (\<lambda>no_ok_pct.
                   Inr \<lparr>Total_Items = total, OK_Count = ok_count, OK_pct = py_round2 ok_pct,
                        No_OK_Count = no_ok_count, No_OK_pct = py_round2 no_ok_pct\<rparr>)))"

text \<open>Lines 59 to 109, in the order of the source.\<close>

definition process ::
  "(string \<Rightarrow> num) \<Rightarrow> dataframe \<Rightarrow> string \<Rightarrow> string \<Rightarrow> string \<Rightarrow> string
     \<Rightarrow> py_error + (df_out \<times> summary)" where
  "process parse df item_col height_col width_col length_col =
     and_then (getitem df item_col) (\<lambda>item_id.
     and_then (getitem df height_col) (\<lambda>raw_height.
     and_then (getitem df width_col) (\<lambda>raw_width.
     and_then (getitem df length_col) (\<lambda>raw_length.
       (let height = to_numeric parse raw_height;
            width = to_numeric parse raw_width;
            length' = to_numeric parse raw_length;
            invalid = invalid_rows height width length';
            volume = volume_col height width length' invalid;
            status = status_col (len_df df) (fits_machine height width length') invalid;
            cardboard_width = cardboard_width_col (len_df df) height width;
            out = \<lparr>Item_ID = item_id, Height = height, Width = width, Length = length',
                    Volume = volume, Status = status,
                    Optimal_Cardboard_Width = cardboard_width\<rparr>
        in and_then (summarize out) (\<lambda>s. Inr (out, s)))))))"

subsection \<open>The cardboard rule as the specification words it (section 4.2)\<close>

text \<open>
  The specification gives the cardboard rule one row at a time: a missing height or width
  gives \<^verbatim>\<open>No Fit\<close>; otherwise \<open>wrap\<close> is the sum of height and width, the widths are tried
  in the configured order, smallest first, and the first one that is at least \<open>wrap\<close>
  names the bucket. These definitions follow the specification, not the source; they are
  what \<open>pick_cardboard\<close> is compared with. The sum and the comparison are those of the
  entries, so that both sides see the same \<open>wrap\<close>.
\<close>

fun spec_first_fit :: "int list \<Rightarrow> num \<Rightarrow> string" where
  "spec_first_fit [] wrap = ''No Fit''"
| "spec_first_fit (c # cs) wrap = (if num_le_int wrap c then py_str c else spec_first_fit cs wrap)"

definition spec_cardboard_fit :: "num \<Rightarrow> num \<Rightarrow> string" where
  "spec_cardboard_fit height width =
     (if height = F64 NaN \<or> width = F64 NaN then ''No Fit''
      else spec_first_fit CARDBOARD_OPTIONS (num_add height width))"

definition spec_cardboard_fit_rows :: "num list \<Rightarrow> num list \<Rightarrow> string list" where
  "spec_cardboard_fit_rows height width = map (\<lambda>(h, w). spec_cardboard_fit h w) (zip height width)"

subsection \<open>Example tables\<close>

text \<open>
  The rows of the scenarios of section 8 of the specification, with rows at the limits of
  the machine and of the cardboard widths, a row of non-positive dimensions and rows
  too large for the machine or for any cardboard. The height column has an empty cell
  and the length column a text that does not parse, so both are float64 columns; the
  width column holds integers only, one of them as a text, and is an int64 column.
\<close>

definition row_of :: "(string \<times> cell) list \<Rightarrow> string \<Rightarrow> cell" where
  "row_of kv c = (case map_of kv c of None \<Rightarrow> NA | Some v \<Rightarrow> v)"

definition example_parse :: "string \<Rightarrow> num" where
  "example_parse s = (if s = ''20'' then I64 20 else F64 NaN)"

definition example_df :: dataframe where
  "example_df =
     \<lparr>columns = [''Item'', ''H'', ''W'', ''L''],
      rows =
        [row_of [(''Item'', Str ''a''), (''H'', Num (I64 10)), (''W'', Str ''20''),
                 (''L'', Num (I64 14))],
         row_of [(''Item'', Str ''b''), (''H'', Num (I64 5)), (''W'', Num (I64 10)),
                 (''L'', Str ''abc'')],
         row_of [(''Item'', Str ''c''), (''H'', NA), (''W'', Num (I64 20)),
                 (''L'', Num (I64 10))],
         row_of [(''Item'', Str ''d''), (''H'', Num (I64 11)), (''W'', Num (I64 22)),
                 (''L'', Num (I64 15))],
         row_of [(''Item'', Str ''e''), (''H'', Num (I64 (- 1))), (''W'', Num (I64 0)),
                 (''L'', Num (I64 (- 5)))],
         row_of [(''Item'', Str ''f''), (''H'', Num (I64 30)), (''W'', Num (I64 20)),
                 (''L'', Num (I64 1))],
         row_of [(''Item'', Str ''g''), (''H'', Num (I64 3)), (''W'', Num (I64 20)),
                 (''L'', Num (I64 15))],
         row_of [(''Item'', Str ''h''), (''H'', Num (I64 12)), (''W'', Num (I64 1)),
                 (''L'', Num (I64 1))]]\<rparr>"

definition example_out :: df_out where
  "example_out =
     \<lparr>Item_ID = [Str ''a'', Str ''b'', Str ''c'', Str ''d'', Str ''e'', Str ''f'', Str ''g'',
                 Str ''h''],
      Height = [F64 (Fin 10), F64 (Fin 5), F64 NaN, F64 (Fin 11), F64 (Fin (- 1)),
                F64 (Fin 30), F64 (Fin 3), F64 (Fin 12)],
      Width = [I64 20, I64 10, I64 20, I64 22, I64 0, I64 20, I64 20, I64 1],
      Length = [F64 (Fin 14), F64 NaN, F64 (Fin 10), F64 (Fin 15), F64 (Fin (- 5)),
                F64 (Fin 1), F64 (Fin 15), F64 (Fin 1)],
      Volume = [F64 (Fin 2800), F64 NaN, F64 NaN, F64 (Fin 3630), F64 (Fin 0),
                F64 (Fin 600), F64 (Fin 900), F64 (Fin 12)],
      Status = [''OK'', ''No OK'', ''No OK'', ''OK'', ''OK'', ''No OK'', ''OK'', ''No OK''],
      Optimal_Cardboard_Width =
        [''39'', ''23'', ''No Fit'', ''39'', ''23'', ''No Fit'', ''23'', ''23'']\<rparr>"

definition example_summary :: summary where
  "example_summary =
     \<lparr>Total_Items = 8, OK_Count = 4, OK_pct = Fin 50, No_OK_Count = 4, No_OK_pct = Fin 50\<rparr>"


text \<open>A table with its columns and no row, as a file with a header line only gives.\<close>

definition empty_df :: dataframe where
  "empty_df = \<lparr>columns = [''Item'', ''H'', ''W'', ''L''], rows = []\<rparr>"

definition empty_out :: df_out where
  "empty_out =
     \<lparr>Item_ID = [], Height = [], Width = [], Length = [], Volume = [], Status = [],
      Optimal_Cardboard_Width = []\<rparr>"

definition empty_summary :: summary where
  "empty_summary =
     \<lparr>Total_Items = 0, OK_Count = 0, OK_pct = Fin 0, No_OK_Count = 0, No_OK_pct = Fin 0\<rparr>"

text \<open>A table with rows and no columns at all.\<close>

definition no_columns_df :: dataframe where
  "no_columns_df = \<lparr>columns = [], rows = [row_of [], row_of []]\<rparr>"

text \<open>A table of one row, given by its three dimension cells.\<close>

definition one_row_df :: "cell \<Rightarrow> cell \<Rightarrow> cell \<Rightarrow> dataframe" where
  "one_row_df h w l =
     \<lparr>columns = [''Item'', ''H'', ''W'', ''L''],
      rows = [row_of [(''Item'', Str ''a''), (''H'', h), (''W'', w), (''L'', l)]]\<rparr>"

text \<open>
  A table of 160 rows with integer cells: 23 rows of 1 by 1 by 1, which fit the machine,
  and 137 rows of 12 by 1 by 1, which are too high.
\<close>

definition many_rows_df :: dataframe where
  "many_rows_df =
     \<lparr>columns = [''Item'', ''H'', ''W'', ''L''],
      rows =
        replicate 23 (row_of [(''Item'', Str ''a''), (''H'', Num (I64 1)), (''W'', Num (I64 1)),
                              (''L'', Num (I64 1))]) @
        replicate 137 (row_of [(''Item'', Str ''b''), (''H'', Num (I64 12)),
                               (''W'', Num (I64 1)), (''L'', Num (I64 1))])\<rparr>"

definition many_rows_out :: df_out where
  "many_rows_out =
     \<lparr>Item_ID = replicate 23 (Str ''a'') @ replicate 137 (Str ''b''),
      Height = replicate 23 (I64 1) @ replicate 137 (I64 12),
      Width = replicate 23 (I64 1) @ replicate 137 (I64 1),
      Length = replicate 23 (I64 1) @ replicate 137 (I64 1),
      Volume = replicate 23 (I64 1) @ replicate 137 (I64 12),
      Status = replicate 23 ''OK'' @ replicate 137 ''No OK'',
      Optimal_Cardboard_Width = replicate 23 ''23'' @ replicate 137 ''23''\<rparr>"

definition many_rows_summary :: summary where
  "many_rows_summary =
     \<lparr>Total_Items = 160, OK_Count = 23, OK_pct = Fin (8089590830664253 / 2 ^ 49),
      No_OK_Count = 137, No_OK_pct = Fin (753121484561449 / 2 ^ 43)\<rparr>"

section \<open>Properties\<close>

subsection \<open>Rounding to a double\<close>

lemma pow2_pos [simp]: "0 < pow2 k"
  by (simp add: pow2_def)

lemma pow2_powr: "pow2 k = 2 powr (of_int k)"
  by (simp add: pow2_def powr_int)

lemma pow2_add: "pow2 (j + k) = pow2 j * pow2 k"
  by (simp add: pow2_powr powr_add)

lemma pow2_mono: "j \<le> k \<Longrightarrow> pow2 j \<le> pow2 k"
  by (simp add: pow2_powr)

lemma round_half_even_near: "\<bar>of_int (round_half_even y) - y\<bar> \<le> 1 / 2"
proof -
  define f where "f = \<lfloor>y\<rfloor>"
  have "of_int f \<le> y" "y < of_int f + 1"
    unfolding f_def by linarith+
  then show ?thesis
    unfolding round_half_even_def Let_def f_def [symmetric]
    by (auto simp: abs_if)
qed

lemma round_half_even_of_int [simp]: "round_half_even (of_int n) = n"
  by (simp add: round_half_even_def)

lemma floor_log2: 
  assumes "pow2 k \<le> \<bar>x\<bar>" "\<bar>x\<bar> < pow2 (k + 1)"
  shows "\<lfloor>log 2 \<bar>x\<bar>\<rfloor> = k"
proof -
  have "0 < \<bar>x\<bar>"
    using assms(1) pow2_pos [of k] by linarith
  then show ?thesis
    using assms by (simp add: floor_log_eq_powr_iff pow2_powr)
qed

lemma binary64_normal:
  assumes "- 1022 \<le> k" "pow2 k \<le> \<bar>x\<bar>" "\<bar>x\<bar> < pow2 (k + 1)"
    and "round_half_even (x / pow2 (k - 52)) = m"
    and "\<bar>of_int m * pow2 (k - 52)\<bar> < pow2 1024"
  shows "binary64 x = Fin (of_int m * pow2 (k - 52))"
proof -
  have "0 < \<bar>x\<bar>"
    using assms(2) pow2_pos [of k] by linarith
  then have "x \<noteq> 0"
    by auto
  moreover have "max \<lfloor>log 2 \<bar>x\<bar>\<rfloor> (- 1022) = k"
    using floor_log2 [OF assms(2,3)] assms(1) by simp
  ultimately show ?thesis
    using assms(4,5) by (simp add: binary64_def Let_def)
qed

lemma binary64_not_NaN [simp]: "binary64 x \<noteq> NaN"
  by (simp add: binary64_def Let_def)


lemma pow2_1024_large: "256 \<le> pow2 1024"
proof -
  have "pow2 8 \<le> pow2 1024"
    by (rule pow2_mono) simp
  then show ?thesis
    by (simp add: pow2_def)
qed

lemma binary64_near:
  assumes "\<bar>x\<bar> \<le> 128"
  shows "\<exists>y. binary64 x = Fin y \<and> \<bar>y - x\<bar> \<le> pow2 (- 46)"
proof (cases "x = 0")
  case True
  then show ?thesis
    by (simp add: binary64_def less_imp_le)
next
  case False
  define e where "e = max \<lfloor>log 2 \<bar>x\<bar>\<rfloor> (- 1022)"
  define q where "q = pow2 (e - 52)"
  define y where "y = of_int (round_half_even (x / q)) * q"
  have "log 2 \<bar>x\<bar> \<le> log 2 128"
    using False assms by simp
  also have "log 2 128 = 7"
    using log_powr_cancel [of 2 7] by simp
  finally have "\<lfloor>log 2 \<bar>x\<bar>\<rfloor> \<le> 7"
    by (simp add: floor_le_iff)
  then have "e \<le> 7"
    by (simp add: e_def)
  then have q45: "q \<le> pow2 (- 45)"
    unfolding q_def by (intro pow2_mono) simp
  have q: "0 < q"
    by (simp add: q_def)
  have "y - x = (of_int (round_half_even (x / q)) - x / q) * q"
    using q by (simp add: y_def field_simps)
  then have "\<bar>y - x\<bar> = \<bar>of_int (round_half_even (x / q)) - x / q\<bar> * q"
    using q by (simp add: abs_mult)
  also have "\<dots> \<le> 1 / 2 * q"
    using q round_half_even_near [of "x / q"] by (intro mult_right_mono) simp_all
  also have "\<dots> \<le> 1 / 2 * pow2 (- 45)"
    using q45 by simp
  also have "\<dots> = pow2 (- 46)"
    by (simp add: pow2_def)
  finally have near: "\<bar>y - x\<bar> \<le> pow2 (- 46)" .
  have "pow2 (- 46) \<le> 1"
    by (simp add: pow2_def)
  with near assms have "\<bar>y\<bar> < 256"
    by linarith
  with pow2_1024_large have "\<not> pow2 1024 \<le> \<bar>y\<bar>"
    by linarith
  then have "binary64 x = Fin y"
    using False by (simp add: binary64_def Let_def e_def [symmetric] q_def [symmetric] y_def)
  with near show ?thesis
    by blast
qed

lemma binary64_of_int:
  assumes "\<bar>n\<bar> < 2 ^ 53"
  shows "binary64 (of_int n) = Fin (of_int n)"
proof (cases "n = 0")
  case True
  then show ?thesis
    by (simp add: binary64_def)
next
  case False
  define x :: real where "x = of_int n"
  define k where "k = \<lfloor>log 2 \<bar>x\<bar>\<rfloor>"
  have x1: "1 \<le> \<bar>x\<bar>"
    using False by (simp add: x_def flip: of_int_abs)
  have x2: "\<bar>x\<bar> < 2 ^ 53"
    using assms by (simp add: x_def flip: of_int_abs) 
  have "0 \<le> log 2 \<bar>x\<bar>"
    using x1 by simp
  then have k0: "0 \<le> k"
    by (simp add: k_def)
  have "log 2 \<bar>x\<bar> < log 2 (2 ^ 53)"
    using x1 x2 by simp
  also have "log 2 (2 ^ 53) = 53"
    using log_powr_cancel [of 2 53] by simp
  finally have k1: "k \<le> 52"
    by (simp add: k_def floor_less_iff [symmetric]) 
  have e: "max k (- 1022) = k"
    using k0 by simp
  have q: "pow2 (k - 52) = 1 / 2 ^ nat (52 - k)"
    using k1 by (simp add: pow2_def)
  have "x / pow2 (k - 52) = of_int (n * 2 ^ nat (52 - k))"
    by (simp add: q x_def)
  then have r: "round_half_even (x / pow2 (k - 52)) = n * 2 ^ nat (52 - k)"
    by (simp only: round_half_even_of_int)
  have y: "real_of_int n * 2 ^ nat (52 - k) * pow2 (k - 52) = x"
    by (simp add: q x_def)
  have "pow2 53 \<le> pow2 1024"
    by (rule pow2_mono) simp
  then have "\<not> pow2 1024 \<le> \<bar>x\<bar>"
    using x2 by (simp add: pow2_def)
  then have "binary64 x = Fin x"
    using x1 by (simp add: binary64_def Let_def k_def [symmetric] e r y)
  then show ?thesis
    by (simp add: x_def)
qed

lemma binary64_numeral [simp]:
  "(numeral n :: int) < 2 ^ 53 \<Longrightarrow> binary64 (numeral n) = Fin (numeral n)"
  "(numeral n :: int) < 2 ^ 53 \<Longrightarrow> binary64 (- numeral n) = Fin (- numeral n)"
  "binary64 0 = Fin 0" "binary64 1 = Fin 1" "binary64 (- 1) = Fin (- 1)"
  using binary64_of_int [of "numeral n"] binary64_of_int [of "- numeral n"]
    binary64_of_int [of 0] binary64_of_int [of 1] binary64_of_int [of "- 1"]
  by simp_all

lemma round_half_even_numeral [simp]:
  "round_half_even (numeral n) = numeral n" "round_half_even (- numeral n) = - numeral n"
  "round_half_even 0 = 0" "round_half_even 1 = 1"
  using round_half_even_of_int [of "numeral n"] round_half_even_of_int [of "- numeral n"]
    round_half_even_of_int [of 0] round_half_even_of_int [of 1]
  by simp_all

lemma pow2_1024_huge: "pow2 64 \<le> pow2 1024"
  by (rule pow2_mono) simp

lemma binary64_23_over_160: "binary64 (23 / 160) = Fin (5179139571476070 / 2 ^ 55)"
proof -
  have "binary64 (23 / 160) = Fin (of_int 5179139571476070 * pow2 (- 3 - 52))"
  proof (rule binary64_normal)
    show "\<bar>of_int 5179139571476070 * pow2 (- 3 - 52)\<bar> < pow2 1024"
      using pow2_1024_huge by (simp add: pow2_def)
  qed (simp_all add: pow2_def round_half_even_def Let_def)
  then show ?thesis
    by (simp add: pow2_def)
qed

lemma binary64_23_over_160_times_100: "binary64 (5179139571476070 / 2 ^ 55 * 100) = Fin (8092405580431359 / 2 ^ 49)"
proof -
  have "binary64 (5179139571476070 / 2 ^ 55 * 100) = Fin (of_int 8092405580431359 * pow2 (3 - 52))"
  proof (rule binary64_normal)
    show "\<bar>of_int 8092405580431359 * pow2 (3 - 52)\<bar> < pow2 1024"
      using pow2_1024_huge by (simp add: pow2_def)
  qed (simp_all add: pow2_def round_half_even_def Let_def)
  then show ?thesis
    by (simp add: pow2_def)
qed

lemma round_half_even_1437: "round_half_even (8092405580431359 / 2 ^ 49 * 100) = 1437"
  by (simp add: round_half_even_def Let_def)

lemma binary64_1437_hundredths: "binary64 (1437 / 100) = Fin (8089590830664253 / 2 ^ 49)"
proof -
  have "binary64 (1437 / 100) = Fin (of_int 8089590830664253 * pow2 (3 - 52))"
  proof (rule binary64_normal)
    show "\<bar>of_int 8089590830664253 * pow2 (3 - 52)\<bar> < pow2 1024"
      using pow2_1024_huge by (simp add: pow2_def)
  qed (simp_all add: pow2_def round_half_even_def Let_def)
  then show ?thesis
    by (simp add: pow2_def)
qed

lemma binary64_23_and_a_bit: "binary64 (23 + 1 / 2 ^ 60) = Fin 23"
proof -
  have "binary64 (23 + 1 / 2 ^ 60) = Fin (of_int 6473924464345088 * pow2 (4 - 52))"
  proof (rule binary64_normal)
    show "\<bar>of_int 6473924464345088 * pow2 (4 - 52)\<bar> < pow2 1024"
      using pow2_1024_huge by (simp add: pow2_def)
  qed (simp_all add: pow2_def round_half_even_def Let_def)
  then show ?thesis
    by (simp add: pow2_def)
qed



subsection \<open>Columns, position by position\<close>

lemma py_str_23: "py_str 23 = ''23''"
  by (simp add: py_str_def digit_chr_def)

lemma py_str_39: "py_str 39 = ''39''"
  by (simp add: py_str_def digit_chr_def)

lemma length_series_le [simp]: "length (series_le s c) = length s"
  by (simp add: series_le_def)

lemma length_series_add [simp]: "length (series_add a b) = min (length a) (length b)"
  by (simp add: series_add_def)

lemma length_series_mul [simp]: "length (series_mul a b) = min (length a) (length b)"
  by (simp add: series_mul_def)

lemma length_loc_set [simp]: "length (loc_set s msk v) = min (length s) (length msk)"
  by (simp add: loc_set_def)

lemma length_mask_and [simp]: "length (mask_and a b) = min (length a) (length b)"
  by (simp add: mask_and_def)

lemma length_mask_or [simp]: "length (mask_or a b) = min (length a) (length b)"
  by (simp add: mask_or_def)

lemma length_mask_not [simp]: "length (mask_not a) = length a"
  by (simp add: mask_not_def)

lemma length_isna [simp]: "length (isna a) = length a"
  by (simp add: isna_def)

lemma length_series_where [simp]: "length (series_where s c v) = min (length s) (length c)"
  by (simp add: series_where_def)

lemma nth_loc_set:
  "k < length s \<Longrightarrow> k < length msk \<Longrightarrow> loc_set s msk v ! k = (if msk ! k then v else s ! k)"
  by (simp add: loc_set_def)

lemma nth_series_le: "k < length s \<Longrightarrow> series_le s c ! k = num_le_int (s ! k) c"
  by (simp add: series_le_def)

lemma nth_series_add:
  "k < length a \<Longrightarrow> k < length b \<Longrightarrow> series_add a b ! k = num_add (a ! k) (b ! k)"
  by (simp add: series_add_def)


lemma nth_mask_and:
  "k < length a \<Longrightarrow> k < length b \<Longrightarrow> mask_and a b ! k = (a ! k \<and> b ! k)"
  by (simp add: mask_and_def)

lemma nth_mask_or:
  "k < length a \<Longrightarrow> k < length b \<Longrightarrow> mask_or a b ! k = (a ! k \<or> b ! k)"
  by (simp add: mask_or_def)

lemma nth_mask_not: "k < length a \<Longrightarrow> mask_not a ! k = (\<not> a ! k)"
  by (simp add: mask_not_def)

lemma nth_isna: "k < length a \<Longrightarrow> isna a ! k = (a ! k = F64 NaN)"
  by (simp add: isna_def)


subsection \<open>Entries\<close>

lemma to_float_NaN [simp]: "(to_float v = NaN) = (v = F64 NaN)"
  by (cases v) (simp_all add: to_float_def)

lemma f_add_NaN [simp]: "f_add NaN y = NaN" "f_add x NaN = NaN"
  by (cases x; simp)+

lemma f_add_commute: "f_add x y = f_add y x"
  by (cases x; cases y) (simp_all add: add.commute)

lemma num_add_commute: "num_add a b = num_add b a"
  by (cases a; cases b) (simp_all add: num_add_def f_add_commute add.commute)

lemma num_add_NaN [simp]: "num_add (F64 NaN) b = F64 NaN" "num_add a (F64 NaN) = F64 NaN"
  by (cases b; simp add: num_add_def to_float_def) (cases a; simp add: num_add_def to_float_def)

lemma f_mul_NaN [simp]: "f_mul NaN y = NaN" "f_mul x NaN = NaN"
  by (cases x; simp)+

lemma num_mul_NaN [simp]: "num_mul (F64 NaN) b = F64 NaN" "num_mul a (F64 NaN) = F64 NaN"
  by (cases b; simp add: num_mul_def to_float_def) (cases a; simp add: num_mul_def to_float_def)

lemma num_le_int_NaN [simp]: "num_le_int (F64 NaN) c = False"
  by (simp add: num_le_int_def f_le_int_def)

subsection \<open>to_numeric\<close>

lemma length_to_numeric [simp]: "length (to_numeric parse s) = length s"
  by (simp add: to_numeric_def Let_def)

lemma nth_to_numeric:
  "k < length s \<Longrightarrow>
   to_numeric parse s ! k =
     (if list_all is_int64 (map (coerce parse) s) then coerce parse (s ! k)
      else F64 (to_float (coerce parse (s ! k))))"
  by (simp add: to_numeric_def Let_def)

lemma to_numeric_NaN:
  assumes "k < length s"
  shows "(to_numeric parse s ! k = F64 NaN) = (coerce parse (s ! k) = F64 NaN)"
proof (cases "list_all is_int64 (map (coerce parse) s)")
  case True
  then show ?thesis
    using assms by (simp add: nth_to_numeric)
next
  case False
  then show ?thesis
    using assms by (simp add: nth_to_numeric)
qed

subsection \<open>pick_cardboard and the selection it is called on\<close>

lemma length_pick_cardboard:
  "length (pick_cardboard ws hs) = min (length ws) (length hs)"
  by (simp add: pick_cardboard_def Let_def)

lemma nth_pick_cardboard:
  assumes "k < length ws" "k < length hs"
  shows "pick_cardboard ws hs ! k =
     (if num_le_int (num_add (ws ! k) (hs ! k)) 23 then ''23''
      else if num_le_int (num_add (ws ! k) (hs ! k)) 39 then ''39'' else ''No Fit'')"
  using assms
  by (simp add: pick_cardboard_def Let_def nth_loc_set nth_series_le nth_series_add
      CARDBOARD_OPTIONS_def py_str_23 py_str_39)

lemma pick_cardboard_map:
  "pick_cardboard ws hs =
     map (\<lambda>(x, y). if num_le_int (num_add x y) 23 then ''23''
                    else if num_le_int (num_add x y) 39 then ''39'' else ''No Fit'') (zip ws hs)"
  by (rule nth_equalityI) (simp_all add: length_pick_cardboard nth_pick_cardboard)

lemma loc_get_Nil [simp]: "loc_get [] ms = []"
  by (simp add: loc_get_def)

lemma loc_get_Cons [simp]:
  "loc_get (x # xs) (m # ms) = (if m then x # loc_get xs ms else loc_get xs ms)"
  by (simp add: loc_get_def)

lemma loc_get_zip:
  "length a = length ms \<Longrightarrow> length ms = length b \<Longrightarrow>
   zip (loc_get a ms) (loc_get b ms) = loc_get (zip a b) ms"
  by (induction a ms b rule: list_induct3) simp_all

lemma loc_get_map: "loc_get (map f xs) ms = map f (loc_get xs ms)"
  by (induction xs arbitrary: ms) (simp, case_tac ms, simp_all add: loc_get_def)

lemma length_loc_assign [simp]: "length (loc_assign xs ms vs) = length xs"
  by (induction xs ms vs rule: loc_assign.induct) (simp_all split: list.splits)

lemma loc_assign_loc_get:
  "length xs = length ms \<Longrightarrow> length ms = length vs \<Longrightarrow>
   loc_assign xs ms (loc_get vs ms) = map (\<lambda>(x, m, v). if m then v else x) (zip xs (zip ms vs))"
  by (induction xs ms vs rule: list_induct3) simp_all

subsection \<open>The columns of the output\<close>

lemma length_invalid_rows:
  "length (invalid_rows h w l) = min (length h) (min (length w) (length l))"
  by (simp add: invalid_rows_def isna_any_def)

lemma nth_invalid_rows:
  "k < length h \<Longrightarrow> k < length w \<Longrightarrow> k < length l \<Longrightarrow>
   invalid_rows h w l ! k = (h ! k = F64 NaN \<or> w ! k = F64 NaN \<or> l ! k = F64 NaN)"
  by (simp add: invalid_rows_def isna_any_def nth_mask_or nth_isna)

lemma length_isna_any2: "length (isna_any [h, w]) = min (length h) (length w)"
  by (simp add: isna_any_def)

lemma nth_isna_any2:
  "k < length h \<Longrightarrow> k < length w \<Longrightarrow>
   isna_any [h, w] ! k = (h ! k = F64 NaN \<or> w ! k = F64 NaN)"
  by (simp add: isna_any_def nth_mask_or nth_isna)



lemma length_fits_machine:
  "length (fits_machine h w l) = min (min (length h) (length w)) (length l)"
  by (simp add: fits_machine_def)

lemma nth_fits_machine:
  "k < length h \<Longrightarrow> k < length w \<Longrightarrow> k < length l \<Longrightarrow>
   fits_machine h w l ! k =
     (num_le_int (h ! k) MAX_HEIGHT \<and> num_le_int (w ! k) MAX_WIDTH \<and>
      num_le_int (l ! k) MAX_LENGTH)"
  by (simp add: fits_machine_def nth_mask_and nth_series_le)

lemma length_status_col:
  "length (status_col n fits bad) = min n (min (length fits) (length bad))"
  by (simp add: status_col_def Let_def)

lemma nth_status_col:
  "k < n \<Longrightarrow> k < length fits \<Longrightarrow> k < length bad \<Longrightarrow>
   status_col n fits bad ! k = (if fits ! k \<and> \<not> bad ! k then ''OK'' else ''No OK'')"
  by (simp add: status_col_def Let_def nth_loc_set nth_mask_and nth_mask_not)

lemma length_cardboard_width_col [simp]: "length (cardboard_width_col n h w) = n"
  by (simp add: cardboard_width_col_def Let_def)

lemma nth_cardboard_width_col:
  assumes "length h = n" "length w = n" "k < n"
  shows "cardboard_width_col n h w ! k =
     (if h ! k = F64 NaN \<or> w ! k = F64 NaN then ''No Fit''
      else if num_le_int (num_add (w ! k) (h ! k)) 23 then ''23''
      else if num_le_int (num_add (w ! k) (h ! k)) 39 then ''39'' else ''No Fit'')"
proof -
  let ?v = "mask_not (isna_any [h, w])"
  have lv: "length ?v = n"
    using assms by (simp add: length_isna_any2)
  have "pick_cardboard (loc_get w ?v) (loc_get h ?v) = loc_get (pick_cardboard w h) ?v"
    using assms lv by (simp add: pick_cardboard_map loc_get_zip loc_get_map)
  then have "cardboard_width_col n h w =
      map (\<lambda>(x, m, v). if m then v else x)
        (zip (replicate n ''No Fit'') (zip ?v (pick_cardboard w h)))"
    using assms lv
    by (simp add: cardboard_width_col_def Let_def loc_assign_loc_get length_pick_cardboard)
  then show ?thesis
    using assms lv
    by (simp add: length_pick_cardboard nth_pick_cardboard nth_mask_not nth_isna_any2
        length_isna_any2)
qed

subsection \<open>The run as a whole\<close>

lemma py_round2_0 [simp]: "py_round2 (Fin 0) = Fin 0"
  by (simp add: py_round2_def round_half_even_def)

lemma summarize_Inr:
  "summarize out =
     Inr \<lparr>Total_Items = length (Item_ID out),
          OK_Count = length (filter (\<lambda>x. x = ''OK'') (Status out)),
          OK_pct = (if length (Item_ID out) = 0 then Fin 0
                    else py_round2 (f_mul
                           (binary64 (real (length (filter (\<lambda>x. x = ''OK'') (Status out)))
                              / real (length (Item_ID out)))) (Fin 100))),
          No_OK_Count = length (filter (\<lambda>x. x = ''No OK'') (Status out)),
          No_OK_pct = (if length (Item_ID out) = 0 then Fin 0
                       else py_round2 (f_mul
                              (binary64 (real (length (filter (\<lambda>x. x = ''No OK'') (Status out)))
                                 / real (length (Item_ID out)))) (Fin 100)))\<rparr>"
  by (simp add: summarize_def Let_def and_then_def py_truediv_def)

lemma process_Inr:
  assumes "process parse df ic hc wc lc = Inr (out, s)"
  shows "ic \<in> set (columns df) \<and> hc \<in> set (columns df) \<and> wc \<in> set (columns df) \<and>
         lc \<in> set (columns df)"
    and "Item_ID out = map (\<lambda>r. r ic) (rows df)"
    and "Height out = to_numeric parse (map (\<lambda>r. r hc) (rows df))"
    and "Width out = to_numeric parse (map (\<lambda>r. r wc) (rows df))"
    and "Length out = to_numeric parse (map (\<lambda>r. r lc) (rows df))"
    and "Volume out = volume_col (Height out) (Width out) (Length out)
           (invalid_rows (Height out) (Width out) (Length out))"
    and "Status out = status_col (length (rows df))
           (fits_machine (Height out) (Width out) (Length out))
           (invalid_rows (Height out) (Width out) (Length out))"
    and "Optimal_Cardboard_Width out =
           cardboard_width_col (length (rows df)) (Height out) (Width out)"
    and "summarize out = Inr s"
  using assms
  by (auto simp: process_def and_then_def getitem_def Let_def len_df_def
      split: if_splits sum.splits)

lemma process_present:
  assumes "ic \<in> set (columns df)" "hc \<in> set (columns df)" "wc \<in> set (columns df)"
    "lc \<in> set (columns df)"
  shows "\<exists>out s. process parse df ic hc wc lc = Inr (out, s)"
  using assms
  by (simp add: process_def and_then_def getitem_def Let_def summarize_Inr)

lemma process_lengths:
  assumes "process parse df ic hc wc lc = Inr (out, s)"
  shows "length (Height out) = length (rows df)" "length (Width out) = length (rows df)"
    "length (Length out) = length (rows df)"
  by (simp_all add: process_Inr(3,4,5) [OF assms])

lemma process_KeyError:
  "ic \<notin> set (columns df) \<Longrightarrow> process parse df ic hc wc lc = Inl (KeyError ic)"
  "ic \<in> set (columns df) \<Longrightarrow> hc \<notin> set (columns df) \<Longrightarrow>
     process parse df ic hc wc lc = Inl (KeyError hc)"
  "ic \<in> set (columns df) \<Longrightarrow> hc \<in> set (columns df) \<Longrightarrow> wc \<notin> set (columns df) \<Longrightarrow>
     process parse df ic hc wc lc = Inl (KeyError wc)"
  "ic \<in> set (columns df) \<Longrightarrow> hc \<in> set (columns df) \<Longrightarrow> wc \<in> set (columns df) \<Longrightarrow>
     lc \<notin> set (columns df) \<Longrightarrow> process parse df ic hc wc lc = Inl (KeyError lc)"
  by (simp_all add: process_def and_then_def getitem_def)

subsection \<open>The example tables, run\<close>

lemma binary64_half: "binary64 (1 / 2) = Fin (1 / 2)"
proof -
  have "binary64 (1 / 2) = Fin (of_int 4503599627370496 * pow2 (- 1 - 52))"
  proof (rule binary64_normal)
    show "\<bar>of_int 4503599627370496 * pow2 (- 1 - 52)\<bar> < pow2 1024"
      using pow2_1024_huge by (simp add: pow2_def)
  qed (simp_all add: pow2_def round_half_even_def Let_def)
  then show ?thesis
    by (simp add: pow2_def)
qed

lemmas run_defs =
  process_def and_then_def getitem_def row_of_def to_numeric_def coerce_def is_int64_def
  to_float_def len_df_def Let_def invalid_rows_def isna_any_def isna_def mask_or_def
  mask_and_def mask_not_def volume_col_def series_mul_def series_where_def fits_machine_def
  series_le_def num_le_int_def f_le_int_def num_mul_def num_add_def MAX_HEIGHT_def
  MAX_WIDTH_def MAX_LENGTH_def status_col_def loc_set_def cardboard_width_col_def
  loc_get_def pick_cardboard_map summarize_Inr

lemma example_run:
  "process example_parse example_df ''Item'' ''H'' ''W'' ''L'' = Inr (example_out, example_summary)"
  by (simp add: run_defs example_df_def example_out_def example_summary_def example_parse_def
      binary64_half py_round2_def)

lemma empty_run:
  "process parse empty_df ''Item'' ''H'' ''W'' ''L'' = Inr (empty_out, empty_summary)"
  by (simp add: run_defs empty_df_def empty_out_def empty_summary_def)

lemma and_then_Inr [simp]: "and_then (Inr v) f = f v"
  by (simp add: and_then_def)

lemma and_then_Inl [simp]: "and_then (Inl e) f = Inl e"
  by (simp add: and_then_def)

lemma process_eqI:
  assumes "ic \<in> set (columns df)" "hc \<in> set (columns df)" "wc \<in> set (columns df)"
    "lc \<in> set (columns df)"
    and "map (\<lambda>r. r ic) (rows df) = Item_ID out"
    and "to_numeric parse (map (\<lambda>r. r hc) (rows df)) = Height out"
    and "to_numeric parse (map (\<lambda>r. r wc) (rows df)) = Width out"
    and "to_numeric parse (map (\<lambda>r. r lc) (rows df)) = Length out"
    and "volume_col (Height out) (Width out) (Length out)
           (invalid_rows (Height out) (Width out) (Length out)) = Volume out"
    and "status_col (length (rows df)) (fits_machine (Height out) (Width out) (Length out))
           (invalid_rows (Height out) (Width out) (Length out)) = Status out"
    and "cardboard_width_col (length (rows df)) (Height out) (Width out) =
           Optimal_Cardboard_Width out"
    and "summarize out = Inr s"
  shows "process parse df ic hc wc lc = Inr (out, (s :: summary))"
proof -
  have r: "\<lparr>Item_ID = Item_ID out, Height = Height out, Width = Width out, Length = Length out,
         Volume = Volume out, Status = Status out,
         Optimal_Cardboard_Width = Optimal_Cardboard_Width out\<rparr> = (out :: df_out)"
    by simp
  show ?thesis
    by (simp add: process_def getitem_def Let_def len_df_def assms r)
qed

lemma many_rows_columns:
  "''Item'' \<in> set (columns many_rows_df)" "''H'' \<in> set (columns many_rows_df)"
  "''W'' \<in> set (columns many_rows_df)" "''L'' \<in> set (columns many_rows_df)"
  by (simp_all add: many_rows_df_def)

lemma binary64_137_over_160: "binary64 (137 / 160) = Fin (7712414361871974 / 2 ^ 53)"
proof -
  have "binary64 (137 / 160) = Fin (of_int 7712414361871974 * pow2 (- 1 - 52))"
  proof (rule binary64_normal)
    show "\<bar>of_int 7712414361871974 * pow2 (- 1 - 52)\<bar> < pow2 1024"
      using pow2_1024_huge by (simp add: pow2_def)
  qed (simp_all add: pow2_def round_half_even_def Let_def)
  then show ?thesis
    by (simp add: pow2_def)
qed

lemma binary64_137_over_160_times_100:
  "binary64 (7712414361871974 / 2 ^ 53 * 100) = Fin (685 / 8)"
proof -
  have "binary64 (7712414361871974 / 2 ^ 53 * 100) = Fin (of_int 6025323720212480 * pow2 (6 - 52))"
  proof (rule binary64_normal)
    show "\<bar>of_int 6025323720212480 * pow2 (6 - 52)\<bar> < pow2 1024"
      using pow2_1024_huge by (simp add: pow2_def)
  qed (simp_all add: pow2_def round_half_even_def Let_def)
  then show ?thesis
    by (simp add: pow2_def)
qed

lemma round_half_even_8562: "round_half_even (685 / 8 * 100) = 8562"
  by (simp add: round_half_even_def Let_def)

lemma binary64_8562_hundredths: "binary64 (8562 / 100) = Fin (753121484561449 / 2 ^ 43)"
proof -
  have "binary64 (8562 / 100) = Fin (of_int 6024971876491592 * pow2 (6 - 52))"
  proof (rule binary64_normal)
    show "\<bar>of_int 6024971876491592 * pow2 (6 - 52)\<bar> < pow2 1024"
      using pow2_1024_huge by (simp add: pow2_def)
  qed (simp_all add: pow2_def round_half_even_def Let_def)
  then show ?thesis
    by (simp add: pow2_def)
qed

lemma loc_set_replicate:
  "length msk = n \<Longrightarrow> loc_set (replicate n x) msk v = map (\<lambda>m. if m then v else x) msk"
  by (rule nth_equalityI) (simp_all add: nth_loc_set)

lemma cardboard_width_col_map:
  assumes "length h = n" "length w = n"
  shows "cardboard_width_col n h w =
     map (\<lambda>(a, b). if a = F64 NaN \<or> b = F64 NaN then ''No Fit''
                    else if num_le_int (num_add b a) 23 then ''23''
                    else if num_le_int (num_add b a) 39 then ''39'' else ''No Fit'') (zip h w)"
  using assms by (intro nth_equalityI) (simp_all add: nth_cardboard_width_col)

lemma to_numeric_int64:
  "list_all is_int64 (map (coerce parse) s) \<Longrightarrow> to_numeric parse s = map (coerce parse) s"
  by (simp add: to_numeric_def Let_def)

lemma list_all_replicate [simp]: "list_all P (replicate n x) = (n = 0 \<or> P x)"
  by (induction n) auto

lemma percentage_eval:
  assumes "binary64 x = Fin d" and "binary64 (d * 100) = Fin p"
    and "round_half_even (p * 100) = n" and "binary64 (of_int n / 100) = Fin v"
  shows "py_round2 (f_mul (binary64 x) (Fin 100)) = Fin v"
  using assms by (simp add: py_round2_def)

lemma many_rows_summarize: "summarize many_rows_out = Inr many_rows_summary"
proof -
  have n: "length (Item_ID many_rows_out) = 160"
    by (simp add: many_rows_out_def)
  have a: "length (filter (\<lambda>x. x = ''OK'') (Status many_rows_out)) = 23"
    by (simp add: many_rows_out_def)
  have b: "length (filter (\<lambda>x. x = ''No OK'') (Status many_rows_out)) = 137"
    by (simp add: many_rows_out_def)
  have "binary64 (of_int 1437 / 100) = Fin (8089590830664253 / 2 ^ 49)"
    using binary64_1437_hundredths by simp
  then have p: "py_round2 (f_mul (binary64 (23 / 160)) (Fin 100)) = Fin (8089590830664253 / 2 ^ 49)"
    by (rule percentage_eval [OF binary64_23_over_160 binary64_23_over_160_times_100 round_half_even_1437])
  have "binary64 (of_int 8562 / 100) = Fin (753121484561449 / 2 ^ 43)"
    using binary64_8562_hundredths by simp
  then have q: "py_round2 (f_mul (binary64 (137 / 160)) (Fin 100)) = Fin (753121484561449 / 2 ^ 43)"
    by (rule percentage_eval [OF binary64_137_over_160 binary64_137_over_160_times_100
          round_half_even_8562])
  have "real 23 / real 160 = 23 / 160" "real 137 / real 160 = 137 / 160"
    by simp_all
  then show ?thesis
    unfolding summarize_Inr n a b
    by (simp only: p q many_rows_summary_def) simp
qed

lemma many_rows_run:
  "process example_parse many_rows_df ''Item'' ''H'' ''W'' ''L'' =
     Inr (many_rows_out, many_rows_summary)"
proof (rule process_eqI [OF many_rows_columns])
  show "summarize many_rows_out = Inr many_rows_summary"
    by (rule many_rows_summarize)
  show "cardboard_width_col (length (rows many_rows_df)) (Height many_rows_out)
      (Width many_rows_out) = Optimal_Cardboard_Width many_rows_out"
    by (subst cardboard_width_col_map)
      (simp_all add: many_rows_df_def many_rows_out_def num_add_def num_le_int_def)
qed (simp_all add: many_rows_df_def many_rows_out_def to_numeric_int64 coerce_def row_of_def
    is_int64_def volume_col_def series_mul_def series_where_def invalid_rows_def isna_any_def
    isna_def mask_or_def mask_and_def mask_not_def num_mul_def status_col_def
    loc_set_replicate fits_machine_def series_le_def num_le_int_def MAX_HEIGHT_def
    MAX_WIDTH_def MAX_LENGTH_def)

lemma one_row_columns:
  "''Item'' \<in> set (columns (one_row_df h w l))" "''H'' \<in> set (columns (one_row_df h w l))"
  "''W'' \<in> set (columns (one_row_df h w l))" "''L'' \<in> set (columns (one_row_df h w l))"
  by (simp_all add: one_row_df_def)

lemma one_row_cells:
  "map (\<lambda>r. r ''Item'') (rows (one_row_df h w l)) = [Str ''a'']"
  "map (\<lambda>r. r ''H'') (rows (one_row_df h w l)) = [h]"
  "map (\<lambda>r. r ''W'') (rows (one_row_df h w l)) = [w]"
  "map (\<lambda>r. r ''L'') (rows (one_row_df h w l)) = [l]"
  "length (rows (one_row_df h w l)) = 1"
  by (simp_all add: one_row_df_def row_of_def)

lemma to_numeric_one:
  "to_numeric parse [Num (I64 i)] = [I64 i]"
  "to_numeric parse [Num (F64 x)] = [F64 x]"
  by (simp_all add: to_numeric_def coerce_def is_int64_def to_float_def)

lemma one_row_run:
  assumes "to_numeric parse [h] = [hv]" "to_numeric parse [w] = [wv]"
    "to_numeric parse [l] = [lv]"
    and "bad = (hv = F64 NaN \<or> wv = F64 NaN \<or> lv = F64 NaN)"
    and "status =
      (if num_le_int hv 11 \<and> num_le_int wv 22 \<and> num_le_int lv 15 \<and> \<not> bad then ''OK''
       else ''No OK'')"
  shows "process parse (one_row_df h w l) ''Item'' ''H'' ''W'' ''L'' =
     Inr (\<lparr>Item_ID = [Str ''a''], Height = [hv], Width = [wv], Length = [lv],
            Volume = [if bad then F64 NaN else num_mul (num_mul hv wv) lv],
            Status = [status],
            Optimal_Cardboard_Width =
              [if hv = F64 NaN \<or> wv = F64 NaN then ''No Fit''
               else if num_le_int (num_add wv hv) 23 then ''23''
               else if num_le_int (num_add wv hv) 39 then ''39'' else ''No Fit'']\<rparr>,
          \<lparr>Total_Items = 1, OK_Count = (if status = ''OK'' then 1 else 0),
            OK_pct = (if status = ''OK'' then Fin 100 else Fin 0),
            No_OK_Count = (if status = ''OK'' then 0 else 1),
            No_OK_pct = (if status = ''OK'' then Fin 0 else Fin 100)\<rparr>)"
proof (rule process_eqI [OF one_row_columns])
  show "summarize
     \<lparr>Item_ID = [Str ''a''], Height = [hv], Width = [wv], Length = [lv],
        Volume = [if bad then F64 NaN else num_mul (num_mul hv wv) lv],
        Status = [status],
        Optimal_Cardboard_Width =
          [if hv = F64 NaN \<or> wv = F64 NaN then ''No Fit''
           else if num_le_int (num_add wv hv) 23 then ''23''
           else if num_le_int (num_add wv hv) 39 then ''39'' else ''No Fit'']\<rparr> =
    Inr \<lparr>Total_Items = 1, OK_Count = (if status = ''OK'' then 1 else 0),
          OK_pct = (if status = ''OK'' then Fin 100 else Fin 0),
          No_OK_Count = (if status = ''OK'' then 0 else 1),
          No_OK_pct = (if status = ''OK'' then Fin 0 else Fin 100)\<rparr>"
    using assms(5) by (simp add: summarize_Inr py_round2_def)
qed (simp_all add: one_row_cells assms invalid_rows_def isna_any_def isna_def mask_or_def
    mask_and_def mask_not_def volume_col_def series_mul_def series_where_def
    fits_machine_def series_le_def MAX_HEIGHT_def MAX_WIDTH_def MAX_LENGTH_def status_col_def
    loc_set_def cardboard_width_col_map)

text \<open>Doubles of the rows below.\<close>

lemma binary64_wrap_rounds: "binary64 (1 / 2 ^ 60 + 23) = Fin 23"
proof -
  have "binary64 (1 / 2 ^ 60 + 23) = Fin (of_int 6473924464345088 * pow2 (4 - 52))"
  proof (rule binary64_normal)
    show "\<bar>of_int 6473924464345088 * pow2 (4 - 52)\<bar> < pow2 1024"
      using pow2_1024_huge by (simp add: pow2_def)
  qed (simp_all add: pow2_def round_half_even_def Let_def)
  then show ?thesis
    by (simp add: pow2_def)
qed

lemma binary64_small_product: "binary64 (23 * (1 / 2 ^ 60)) = Fin (23 / 2 ^ 60)"
proof -
  have "binary64 (23 * (1 / 2 ^ 60)) = Fin (of_int 6473924464345088 * pow2 (- 56 - 52))"
  proof (rule binary64_normal)
    show "\<bar>of_int 6473924464345088 * pow2 (- 56 - 52)\<bar> < pow2 1024"
      using pow2_1024_huge by (simp add: pow2_def)
  qed (simp_all add: pow2_def round_half_even_def Let_def)
  then show ?thesis
    by (simp add: pow2_def)
qed

lemma binary64_small_product_1: "binary64 (23 / 2 ^ 60 * 1) = Fin (23 / 2 ^ 60)"
  using binary64_small_product by simp


lemma f64_entries:
  "num_add (F64 x) (F64 y) = F64 (f_add x y)" "num_mul (F64 x) (F64 y) = F64 (f_mul x y)"
  "num_le_int (F64 (Fin r)) c = (r \<le> of_int c)"
  "num_add (I64 i) (I64 j) = I64 (i + j)" "num_mul (I64 i) (I64 j) = I64 (i * j)"
  "num_le_int (I64 i) c = (sint i \<le> c)"
  by (simp_all add: num_add_def num_mul_def num_le_int_def f_le_int_def to_float_def)

lemma rounded_wrap_run:
  "process example_parse
     (one_row_df (Num (F64 (Fin 23))) (Num (F64 (Fin (1 / 2 ^ 60)))) (Num (F64 (Fin 1))))
     ''Item'' ''H'' ''W'' ''L'' =
   Inr (\<lparr>Item_ID = [Str ''a''], Height = [F64 (Fin 23)], Width = [F64 (Fin (1 / 2 ^ 60))],
          Length = [F64 (Fin 1)], Volume = [F64 (Fin (23 / 2 ^ 60))], Status = [''No OK''],
          Optimal_Cardboard_Width = [''23'']\<rparr>,
        \<lparr>Total_Items = 1, OK_Count = 0, OK_pct = Fin 0, No_OK_Count = 1,
          No_OK_pct = Fin 100\<rparr>)"
proof -
  have a: "num_add (F64 (Fin (1 / 2 ^ 60))) (F64 (Fin 23)) = F64 (Fin 23)"
    by (simp only: f64_entries f_add.simps binary64_wrap_rounds)
  have m: "num_mul (num_mul (F64 (Fin 23)) (F64 (Fin (1 / 2 ^ 60)))) (F64 (Fin 1)) =
      F64 (Fin (23 / 2 ^ 60))"
    by (simp only: f64_entries f_mul.simps binary64_small_product binary64_small_product_1)
  have s: "(if num_le_int (F64 (Fin 23)) 11 \<and> num_le_int (F64 (Fin (1 / 2 ^ 60))) 22 \<and>
        num_le_int (F64 (Fin 1)) 15 \<and> \<not> False then ''OK'' else ''No OK'') = ''No OK''"
    by (simp add: f64_entries)
  show ?thesis
    by (subst one_row_run [OF to_numeric_one(2) to_numeric_one(2) to_numeric_one(2) _ refl])
      (simp_all only: a m s, simp_all add: f64_entries)
qed



lemma wrap_underflow_run:
  "process example_parse
     (one_row_df (Num (I64 (- 9223372036854775808))) (Num (I64 (- 1))) (Num (I64 1)))
     ''Item'' ''H'' ''W'' ''L'' =
   Inr (\<lparr>Item_ID = [Str ''a''], Height = [I64 (- 9223372036854775808)], Width = [I64 (- 1)],
          Length = [I64 1], Volume = [I64 (- 9223372036854775808)], Status = [''OK''],
          Optimal_Cardboard_Width = [''No Fit'']\<rparr>,
        \<lparr>Total_Items = 1, OK_Count = 1, OK_pct = Fin 100, No_OK_Count = 0,
          No_OK_pct = Fin 0\<rparr>)"
proof -
  have a: "num_add (I64 (- 1)) (I64 (- 9223372036854775808)) = I64 9223372036854775807"
    by (simp add: f64_entries)
  have m: "num_mul (num_mul (I64 (- 9223372036854775808)) (I64 (- 1))) (I64 1) =
      I64 (- 9223372036854775808)"
    by (simp add: f64_entries)
  have s: "(if num_le_int (I64 (- 9223372036854775808)) 11 \<and> num_le_int (I64 (- 1)) 22 \<and>
        num_le_int (I64 1) 15 \<and> \<not> False then ''OK'' else ''No OK'') = ''OK''"
    by (simp add: f64_entries)
  show ?thesis
    by (subst one_row_run [OF to_numeric_one(1) to_numeric_one(1) to_numeric_one(1) _ refl])
      (simp_all only: a m s, simp_all add: f64_entries)
qed

lemma wrap_overflow_run:
  "process example_parse
     (one_row_df (Num (I64 1)) (Num (I64 9223372036854775807)) (Num (I64 1)))
     ''Item'' ''H'' ''W'' ''L'' =
   Inr (\<lparr>Item_ID = [Str ''a''], Height = [I64 1], Width = [I64 9223372036854775807],
          Length = [I64 1], Volume = [I64 9223372036854775807], Status = [''No OK''],
          Optimal_Cardboard_Width = [''23'']\<rparr>,
        \<lparr>Total_Items = 1, OK_Count = 0, OK_pct = Fin 0, No_OK_Count = 1,
          No_OK_pct = Fin 100\<rparr>)"
proof -
  have a: "num_add (I64 9223372036854775807) (I64 1) = I64 (- 9223372036854775808)"
    by (simp add: f64_entries)
  have m: "num_mul (num_mul (I64 1) (I64 9223372036854775807)) (I64 1) =
      I64 9223372036854775807"
    by (simp add: f64_entries)
  have s: "(if num_le_int (I64 1) 11 \<and> num_le_int (I64 9223372036854775807) 22 \<and>
        num_le_int (I64 1) 15 \<and> \<not> False then ''OK'' else ''No OK'') = ''No OK''"
    by (simp add: f64_entries)
  show ?thesis
    by (subst one_row_run [OF to_numeric_one(1) to_numeric_one(1) to_numeric_one(1) _ refl])
      (simp_all only: a m s, simp_all add: f64_entries)
qed

lemma volume_overflow_run:
  "process example_parse
     (one_row_df (Num (I64 3000000)) (Num (I64 3000000)) (Num (I64 3000000)))
     ''Item'' ''H'' ''W'' ''L'' =
   Inr (\<lparr>Item_ID = [Str ''a''], Height = [I64 3000000], Width = [I64 3000000],
          Length = [I64 3000000], Volume = [I64 8553255926290448384], Status = [''No OK''],
          Optimal_Cardboard_Width = [''No Fit'']\<rparr>,
        \<lparr>Total_Items = 1, OK_Count = 0, OK_pct = Fin 0, No_OK_Count = 1,
          No_OK_pct = Fin 100\<rparr>)"
proof -
  have a: "num_add (I64 3000000) (I64 3000000) = I64 6000000"
    by (simp add: f64_entries)
  have m: "num_mul (num_mul (I64 3000000) (I64 3000000)) (I64 3000000) =
      I64 8553255926290448384"
    by (simp add: f64_entries)
  have s: "(if num_le_int (I64 3000000) 11 \<and> num_le_int (I64 3000000) 22 \<and>
        num_le_int (I64 3000000) 15 \<and> \<not> False then ''OK'' else ''No OK'') = ''No OK''"
    by (simp add: f64_entries)
  show ?thesis
    by (subst one_row_run [OF to_numeric_one(1) to_numeric_one(1) to_numeric_one(1) _ refl])
      (simp_all only: a m s, simp_all add: f64_entries)
qed


lemma example_rows_length: "length (rows example_df) = 8"
  by (simp add: example_df_def)

lemma example_columns:
  "''Item'' \<in> set (columns example_df)" "''H'' \<in> set (columns example_df)"
  "''W'' \<in> set (columns example_df)" "''L'' \<in> set (columns example_df)"
  by (simp_all add: example_df_def)

lemma process_status:
  assumes "process parse df ic hc wc lc = Inr (out, s)" and "k < length (rows df)"
  shows "Status out ! k =
      (if num_le_int (Height out ! k) MAX_HEIGHT \<and> num_le_int (Width out ! k) MAX_WIDTH \<and>
          num_le_int (Length out ! k) MAX_LENGTH \<and>
          \<not> (Height out ! k = F64 NaN \<or> Width out ! k = F64 NaN \<or> Length out ! k = F64 NaN)
       then ''OK'' else ''No OK'')"
    and "length (Status out) = length (rows df)"
proof -
  note p = process_Inr [OF assms(1)]
  note len = process_lengths [OF assms(1)]
  show "length (Status out) = length (rows df)"
    using len by (simp add: p(7) length_status_col length_fits_machine length_invalid_rows)
  show "Status out ! k =
      (if num_le_int (Height out ! k) MAX_HEIGHT \<and> num_le_int (Width out ! k) MAX_WIDTH \<and>
          num_le_int (Length out ! k) MAX_LENGTH \<and>
          \<not> (Height out ! k = F64 NaN \<or> Width out ! k = F64 NaN \<or> Length out ! k = F64 NaN)
       then ''OK'' else ''No OK'')"
    using assms(2) len
    by (subst p(7))
      (simp add: nth_status_col length_fits_machine length_invalid_rows nth_fits_machine
        nth_invalid_rows)
qed

lemma process_cells:
  assumes "process parse df ic hc wc lc = Inr (out, s)" and "k < length (rows df)"
  shows "(Height out ! k = F64 NaN) = (coerce parse ((rows df ! k) hc) = F64 NaN)"
    and "(Width out ! k = F64 NaN) = (coerce parse ((rows df ! k) wc) = F64 NaN)"
    and "(Length out ! k = F64 NaN) = (coerce parse ((rows df ! k) lc) = F64 NaN)"
  using assms(2) by (simp_all add: process_Inr(3,4,5) [OF assms(1)] to_numeric_NaN)

lemma num_le_int_number:
  "number_of v = Some r \<Longrightarrow> num_le_int v c = (r \<le> of_int c)"
  by (auto simp: number_of_def num_le_int_def f_le_int_def simp del: of_int_sint
      split: num.splits f64.splits)

lemma number_of_not_NaN: "number_of v = Some r \<Longrightarrow> v \<noteq> F64 NaN"
  by (auto simp: number_of_def)

subsection \<open>Machine fit\<close>

text \<open>
  Claim C1. In a run that returns, the status column has one entry for every row of the
  table, and each entry is \<^verbatim>\<open>OK\<close> or \<^verbatim>\<open>No OK\<close>. The entry of row \<open>k\<close> is \<^verbatim>\<open>OK\<close>
  exactly when none of the three dimensions of the row is missing and
  height \<open>\<le>\<close> MAX_HEIGHT, width \<open>\<le>\<close> MAX_WIDTH and length \<open>\<le>\<close> MAX_LENGTH, the
  comparisons being those of the entries (of an int64 or of a double); for dimensions that
  hold numbers these are the comparisons of the numbers, and the bounds are inclusive. A
  dimension is missing exactly when its raw cell does not parse.
\<close>

theorem machine_fit_iff_valid_and_within_limits:
  assumes "process parse df ic hc wc lc = Inr (out, s)" and "k < length (rows df)"
  shows "length (Status out) = length (rows df) \<and>
         (Status out ! k = ''OK'' \<or> Status out ! k = ''No OK'') \<and>
         (Status out ! k = ''OK'') =
           (Height out ! k \<noteq> F64 NaN \<and> Width out ! k \<noteq> F64 NaN \<and>
            Length out ! k \<noteq> F64 NaN \<and>
            num_le_int (Height out ! k) MAX_HEIGHT \<and> num_le_int (Width out ! k) MAX_WIDTH \<and>
            num_le_int (Length out ! k) MAX_LENGTH) \<and>
         (\<forall>h w l. number_of (Height out ! k) = Some h \<and> number_of (Width out ! k) = Some w \<and>
                  number_of (Length out ! k) = Some l \<longrightarrow>
            (Status out ! k = ''OK'') =
              (h \<le> of_int MAX_HEIGHT \<and> w \<le> of_int MAX_WIDTH \<and> l \<le> of_int MAX_LENGTH)) \<and>
         (Height out ! k = F64 NaN) = (coerce parse ((rows df ! k) hc) = F64 NaN) \<and>
         (Width out ! k = F64 NaN) = (coerce parse ((rows df ! k) wc) = F64 NaN) \<and>
         (Length out ! k = F64 NaN) = (coerce parse ((rows df ! k) lc) = F64 NaN)"
proof -
  note st = process_status [OF assms]
  note c = process_cells [OF assms]
  have 1: "Status out ! k = ''OK'' \<or> Status out ! k = ''No OK''"
    by (simp add: st(1))
  have 2: "(Status out ! k = ''OK'') =
      (Height out ! k \<noteq> F64 NaN \<and> Width out ! k \<noteq> F64 NaN \<and> Length out ! k \<noteq> F64 NaN \<and>
       num_le_int (Height out ! k) MAX_HEIGHT \<and> num_le_int (Width out ! k) MAX_WIDTH \<and>
       num_le_int (Length out ! k) MAX_LENGTH)"
    unfolding st(1) by auto
  have 3: "(Status out ! k = ''OK'') =
      (h \<le> of_int MAX_HEIGHT \<and> w \<le> of_int MAX_WIDTH \<and> l \<le> of_int MAX_LENGTH)"
    if "number_of (Height out ! k) = Some h \<and> number_of (Width out ! k) = Some w \<and>
      number_of (Length out ! k) = Some l" for h w l
    unfolding 2 using that by (auto simp: num_le_int_number dest: number_of_not_NaN)
  from st(2) 1 2 3 c show ?thesis
    by blast
qed

text \<open>The row at the limits of the machine, height 11, width 22 and length 15, is OK.\<close>

theorem machine_fit_at_the_limits:
  "process example_parse example_df ''Item'' ''H'' ''W'' ''L'' = Inr (example_out, example_summary) \<and>
   3 < length (rows example_df) \<and>
   number_of (Height example_out ! 3) = Some 11 \<and>
   number_of (Width example_out ! 3) = Some 22 \<and>
   number_of (Length example_out ! 3) = Some 15 \<and>
   Status example_out ! 3 = ''OK'' \<and>
   (11 :: real) \<le> of_int MAX_HEIGHT \<and> (22 :: real) \<le> of_int MAX_WIDTH \<and>
   (15 :: real) \<le> of_int MAX_LENGTH"
proof -
  have k: "3 < length (rows example_df)"
    by (simp add: example_rows_length)
  have n: "number_of (Height example_out ! 3) = Some 11 \<and>
      number_of (Width example_out ! 3) = Some 22 \<and>
      number_of (Length example_out ! 3) = Some 15"
    by (simp add: example_out_def number_of_def)
  have l: "(11 :: real) \<le> of_int MAX_HEIGHT \<and> (22 :: real) \<le> of_int MAX_WIDTH \<and>
      (15 :: real) \<le> of_int MAX_LENGTH"
    by (simp add: MAX_HEIGHT_def MAX_WIDTH_def MAX_LENGTH_def)
  from machine_fit_iff_valid_and_within_limits [OF example_run k] n l
  have "Status example_out ! 3 = ''OK''"
    by blast
  with example_run k n l show ?thesis
    by blast
qed


lemma status_col_values:
  assumes "x \<in> set (status_col n fits bad)"
  shows "x = ''OK'' \<or> x = ''No OK''"
proof -
  from assms obtain i where i: "i < length (status_col n fits bad)"
    and x: "x = status_col n fits bad ! i"
    by (auto simp: in_set_conv_nth)
  from i have "i < n" "i < length fits" "i < length bad"
    by (simp_all add: length_status_col)
  then show ?thesis
    by (simp add: x nth_status_col)
qed

lemma two_way_count:
  "(\<And>x. x \<in> set xs \<Longrightarrow> x = a \<or> x = b) \<Longrightarrow> a \<noteq> b \<Longrightarrow>
   length (filter (\<lambda>x. x = a) xs) + length (filter (\<lambda>x. x = b) xs) = length xs"
  by (induction xs) auto

lemma process_summary:
  assumes "process parse df ic hc wc lc = Inr (out, s)"
  shows "Total_Items s = length (rows df)"
    and "OK_Count s = length (filter (\<lambda>x. x = ''OK'') (Status out))"
    and "No_OK_Count s = length (filter (\<lambda>x. x = ''No OK'') (Status out))"
    and "OK_pct s = (if length (rows df) = 0 then Fin 0
                     else py_round2 (f_mul
                            (binary64 (real (OK_Count s) / real (length (rows df)))) (Fin 100)))"
    and "No_OK_pct s = (if length (rows df) = 0 then Fin 0
                        else py_round2 (f_mul
                               (binary64 (real (No_OK_Count s) / real (length (rows df))))
                               (Fin 100)))"
proof -
  note p = process_Inr [OF assms]
  have s: "s = \<lparr>Total_Items = length (Item_ID out),
          OK_Count = length (filter (\<lambda>x. x = ''OK'') (Status out)),
          OK_pct = (if length (Item_ID out) = 0 then Fin 0
                    else py_round2 (f_mul
                           (binary64 (real (length (filter (\<lambda>x. x = ''OK'') (Status out)))
                              / real (length (Item_ID out)))) (Fin 100))),
          No_OK_Count = length (filter (\<lambda>x. x = ''No OK'') (Status out)),
          No_OK_pct = (if length (Item_ID out) = 0 then Fin 0
                       else py_round2 (f_mul
                              (binary64 (real (length (filter (\<lambda>x. x = ''No OK'') (Status out)))
                                 / real (length (Item_ID out)))) (Fin 100)))\<rparr>"
    using p(9) by (simp add: summarize_Inr)
  have l: "length (Item_ID out) = length (rows df)"
    by (simp add: p(2))
  show "Total_Items s = length (rows df)"
    by (subst s) (simp add: l)
  show "OK_Count s = length (filter (\<lambda>x. x = ''OK'') (Status out))"
    by (subst s) simp
  show "No_OK_Count s = length (filter (\<lambda>x. x = ''No OK'') (Status out))"
    by (subst s) simp
  show "OK_pct s = (if length (rows df) = 0 then Fin 0
                     else py_round2 (f_mul
                            (binary64 (real (OK_Count s) / real (length (rows df)))) (Fin 100)))"
    by (subst (1 2) s) (simp add: l)
  show "No_OK_pct s = (if length (rows df) = 0 then Fin 0
                        else py_round2 (f_mul
                               (binary64 (real (No_OK_Count s) / real (length (rows df))))
                               (Fin 100)))"
    by (subst (1 2) s) (simp add: l)
qed

lemma process_counts:
  assumes "process parse df ic hc wc lc = Inr (out, s)"
  shows "OK_Count s + No_OK_Count s = length (rows df)"
proof -
  note p = process_Inr [OF assms]
  note q = process_summary [OF assms]
  have vals: "x = ''OK'' \<or> x = ''No OK''" if "x \<in> set (Status out)" for x
    using that by (subst (asm) p(7)) (rule status_col_values)
  have "length (filter (\<lambda>x. x = ''OK'') (Status out)) +
      length (filter (\<lambda>x. x = ''No OK'') (Status out)) = length (Status out)"
    by (rule two_way_count) (use vals in simp_all)
  moreover have "length (Status out) = length (rows df)"
    using process_lengths [OF assms]
    by (simp add: p(7) length_status_col length_fits_machine length_invalid_rows)
  ultimately show ?thesis
    by (simp add: q(2,3))
qed

subsection \<open>Summary counts\<close>

text \<open>
  Claim C4. For every table whose selected columns exist, the table without rows included,
  the run returns, the total of the summary is the number of rows of the table, the two
  counts are the numbers of \<^verbatim>\<open>OK\<close> and of \<^verbatim>\<open>No OK\<close> entries of the status column, and
  they add up to the total. With no rows both counts are 0.
\<close>

theorem summary_counts_add_up_to_total:
  assumes "ic \<in> set (columns df)" "hc \<in> set (columns df)" "wc \<in> set (columns df)"
    "lc \<in> set (columns df)"
  shows "\<exists>out s. process parse df ic hc wc lc = Inr (out, s) \<and>
           Total_Items s = length (rows df) \<and>
           OK_Count s = length (filter (\<lambda>x. x = ''OK'') (Status out)) \<and>
           No_OK_Count s = length (filter (\<lambda>x. x = ''No OK'') (Status out)) \<and>
           OK_Count s + No_OK_Count s = Total_Items s \<and>
           (rows df = [] \<longrightarrow> OK_Count s = 0 \<and> No_OK_Count s = 0)"
proof -
  from process_present [OF assms] obtain out s
    where r: "process parse df ic hc wc lc = Inr (out, s)"
    by blast
  note q = process_summary [OF r]
  have sum: "OK_Count s + No_OK_Count s = Total_Items s"
    by (simp add: q(1) process_counts [OF r])
  have "OK_Count s = 0 \<and> No_OK_Count s = 0" if "rows df = []"
    using sum that by (simp add: q(1))
  with r q(1,2,3) sum show ?thesis
    by blast
qed

text \<open>The table with a header and no rows: the run returns with total and counts 0.\<close>

theorem summary_counts_of_the_empty_table:
  "''Item'' \<in> set (columns empty_df) \<and> ''H'' \<in> set (columns empty_df) \<and>
   ''W'' \<in> set (columns empty_df) \<and> ''L'' \<in> set (columns empty_df) \<and>
   rows empty_df = [] \<and>
   (\<exists>out s. process example_parse empty_df ''Item'' ''H'' ''W'' ''L'' = Inr (out, s) \<and>
      Total_Items s = 0 \<and> OK_Count s = 0 \<and> No_OK_Count s = 0)"
proof -
  have c: "''Item'' \<in> set (columns empty_df)" "''H'' \<in> set (columns empty_df)"
    "''W'' \<in> set (columns empty_df)" "''L'' \<in> set (columns empty_df)"
    by (simp_all add: empty_df_def)
  have e: "rows empty_df = []"
    by (simp add: empty_df_def)
  from summary_counts_add_up_to_total [OF c, of example_parse] e
  have "\<exists>out s. process example_parse empty_df ''Item'' ''H'' ''W'' ''L'' = Inr (out, s) \<and>
      Total_Items s = 0 \<and> OK_Count s = 0 \<and> No_OK_Count s = 0"
    by auto
  with c e show ?thesis
    by blast
qed

subsection \<open>The cardboard bucket does not read the length\<close>



lemma spec_cardboard_fit_eq:
  "spec_cardboard_fit h w =
     (if h = F64 NaN \<or> w = F64 NaN then ''No Fit''
      else if num_le_int (num_add w h) 23 then ''23''
      else if num_le_int (num_add w h) 39 then ''39'' else ''No Fit'')"
  by (simp add: spec_cardboard_fit_def CARDBOARD_OPTIONS_def py_str_23 py_str_39
      num_add_commute [of h w])

subsection \<open>Masking against ordered evaluation\<close>

text \<open>
  Claim C7. On height and width columns of the length of the table, the masking of
  \<open>pick_cardboard\<close> (every bucket set to \<^verbatim>\<open>No Fit\<close>, then overwritten where \<open>wrap\<close> is at
  most the largest width, then overwritten where \<open>wrap\<close> is at most the smallest width)
  gives for every row the bucket of the ordered rule of the specification, smallest
  width first, first match wins; and so does the whole cardboard column of lines 81 to
  86, which calls \<open>pick_cardboard\<close> on the rows with height and width present.
\<close>

theorem masking_agrees_with_ordered_evaluation:
  assumes "length height = n" and "length width = n"
  shows "pick_cardboard width height = spec_cardboard_fit_rows height width \<and>
         cardboard_width_col n height width = spec_cardboard_fit_rows height width"
proof -
  have len: "length (spec_cardboard_fit_rows height width) = n"
    using assms by (simp add: spec_cardboard_fit_rows_def)
  have nth: "spec_cardboard_fit_rows height width ! k = spec_cardboard_fit (height ! k) (width ! k)"
    if "k < n" for k
    using that assms by (simp add: spec_cardboard_fit_rows_def)
  have "pick_cardboard width height = spec_cardboard_fit_rows height width"
  proof (rule nth_equalityI)
    show "length (pick_cardboard width height) = length (spec_cardboard_fit_rows height width)"
      using assms by (simp add: length_pick_cardboard len)
  next
    fix k
    assume "k < length (pick_cardboard width height)"
    then have k: "k < n"
      using assms by (simp add: length_pick_cardboard)
    then show "pick_cardboard width height ! k = spec_cardboard_fit_rows height width ! k"
      using assms
      by (auto simp: nth nth_pick_cardboard spec_cardboard_fit_eq)
  qed
  moreover have "cardboard_width_col n height width = spec_cardboard_fit_rows height width"
  proof (rule nth_equalityI)
    show "length (cardboard_width_col n height width) =
        length (spec_cardboard_fit_rows height width)"
      by (simp add: len)
  next
    fix k
    assume "k < length (cardboard_width_col n height width)"
    then have k: "k < n"
      by simp
    show "cardboard_width_col n height width ! k = spec_cardboard_fit_rows height width ! k"
      by (simp add: nth [OF k] nth_cardboard_width_col [OF assms k] spec_cardboard_fit_eq)
  qed
  ultimately show ?thesis
    by blast
qed

text \<open>The height and width columns of the example table.\<close>

theorem masking_on_the_example_columns:
  "length (Height example_out) = 8 \<and> length (Width example_out) = 8 \<and>
   pick_cardboard (Width example_out) (Height example_out) =
     spec_cardboard_fit_rows (Height example_out) (Width example_out) \<and>
   cardboard_width_col 8 (Height example_out) (Width example_out) =
     [''39'', ''23'', ''No Fit'', ''39'', ''23'', ''No Fit'', ''23'', ''23'']"
proof -
  have l: "length (Height example_out) = 8" "length (Width example_out) = 8"
    by (simp_all add: example_out_def)
  have "spec_cardboard_fit_rows (Height example_out) (Width example_out) =
      [''39'', ''23'', ''No Fit'', ''39'', ''23'', ''No Fit'', ''23'', ''23'']"
    by (simp add: spec_cardboard_fit_rows_def example_out_def spec_cardboard_fit_eq
        num_add_def num_le_int_def f_le_int_def to_float_def)
  with masking_agrees_with_ordered_evaluation [OF l] l show ?thesis
    by simp
qed

subsection \<open>Structurally broken tables\<close>

text \<open>
  Claim C9. A call whose table lacks a selected column is rejected: the run ends with the
  \<^verbatim>\<open>KeyError\<close> of the first absent selector, in the order item, height, width, length,
  and produces no output. A table that is empty of columns lacks every selector, so it is
  rejected on the item selector. (A table with its columns and no rows is not broken: it
  is the zero-row input of claims C4 and C5.)
\<close>

theorem absent_column_is_rejected:
  "(ic \<notin> set (columns df) \<longrightarrow> process parse df ic hc wc lc = Inl (KeyError ic)) \<and>
   (ic \<in> set (columns df) \<and> hc \<notin> set (columns df) \<longrightarrow>
      process parse df ic hc wc lc = Inl (KeyError hc)) \<and>
   (ic \<in> set (columns df) \<and> hc \<in> set (columns df) \<and> wc \<notin> set (columns df) \<longrightarrow>
      process parse df ic hc wc lc = Inl (KeyError wc)) \<and>
   (ic \<in> set (columns df) \<and> hc \<in> set (columns df) \<and> wc \<in> set (columns df) \<and>
    lc \<notin> set (columns df) \<longrightarrow>
      process parse df ic hc wc lc = Inl (KeyError lc)) \<and>
   (columns df = [] \<longrightarrow> process parse df ic hc wc lc = Inl (KeyError ic))"
  by (simp add: process_KeyError)

text \<open>
  The example table with the height selector \<^verbatim>\<open>Tall\<close>, which it does not have, and a
  table without columns.
\<close>

theorem absent_height_column_and_table_without_columns:
  "''Item'' \<in> set (columns example_df) \<and> ''Tall'' \<notin> set (columns example_df) \<and>
   process example_parse example_df ''Item'' ''Tall'' ''W'' ''L'' = Inl (KeyError ''Tall'') \<and>
   columns no_columns_df = [] \<and>
   process example_parse no_columns_df ''Item'' ''H'' ''W'' ''L'' = Inl (KeyError ''Item'')"
proof -
  have a: "''Item'' \<in> set (columns example_df) \<and> ''Tall'' \<notin> set (columns example_df)"
    by (simp add: example_df_def)
  have b: "columns no_columns_df = []"
    by (simp add: no_columns_df_def)
  from a absent_column_is_rejected
    [of "''Item''" example_df example_parse "''Tall''" "''W''" "''L''"]
  have 1: "process example_parse example_df ''Item'' ''Tall'' ''W'' ''L'' = Inl (KeyError ''Tall'')"
    by blast
  from b absent_column_is_rejected
    [of "''Item''" no_columns_df example_parse "''H''" "''W''" "''L''"]
  have 2: "process example_parse no_columns_df ''Item'' ''H'' ''W'' ''L'' = Inl (KeyError ''Item'')"
    by blast
  from a b 1 2 show ?thesis
    by blast
qed


lemma sint_add_in_range:
  fixes i j :: "64 word"
  assumes "- (2 ^ 63) \<le> sint i + sint j" "sint i + sint j < 2 ^ 63"
  shows "sint (i + j) = sint i + sint j"
  using assms by (simp add: sint_word_add signed_take_bit_int_eq_self)


lemma process_bucket:
  assumes "process parse df ic hc wc lc = Inr (out, s)" and "k < length (rows df)"
  shows "Optimal_Cardboard_Width out ! k =
     (if Height out ! k = F64 NaN \<or> Width out ! k = F64 NaN then ''No Fit''
      else if num_le_int (num_add (Width out ! k) (Height out ! k)) 23 then ''23''
      else if num_le_int (num_add (Width out ! k) (Height out ! k)) 39 then ''39''
      else ''No Fit'')"
  using process_lengths(1,2) [OF assms(1)] assms(2)
  by (subst process_Inr(8) [OF assms(1)]) (rule nth_cardboard_width_col)


lemma num_add_int64:
  assumes "- (2 ^ 63) \<le> sint i + sint j" "sint i + sint j < 2 ^ 63"
  shows "num_le_int (num_add (I64 j) (I64 i)) c = (sint i + sint j \<le> c)"
  using sint_add_in_range [of j i] assms by (simp add: f64_entries add.commute)

lemma num_add_float:
  assumes "\<not> (is_int64 a \<and> is_int64 b)"
  shows "num_add a b = F64 (f_add (to_float a) (to_float b))"
  using assms by (simp add: num_add_def is_int64_def split: num.splits)


subsection \<open>Cardboard bucket\<close>

text \<open>
  The sum \<open>wrap\<close> of line 33 is the sum of two doubles as soon as one of the two columns
  is a float64 column, and is then rounded. Height 23 and width \<open>2 ^ -60\<close>: the exact sum
  is above 23 and at most 39, the sum of the doubles is 23, and the bucket is \<^verbatim>\<open>23\<close>.
\<close>

theorem rounded_wrap_takes_the_smaller_width:
  "process example_parse
     (one_row_df (Num (F64 (Fin 23))) (Num (F64 (Fin (1 / 2 ^ 60)))) (Num (F64 (Fin 1))))
     ''Item'' ''H'' ''W'' ''L'' =
   Inr (\<lparr>Item_ID = [Str ''a''], Height = [F64 (Fin 23)], Width = [F64 (Fin (1 / 2 ^ 60))],
          Length = [F64 (Fin 1)], Volume = [F64 (Fin (23 / 2 ^ 60))], Status = [''No OK''],
          Optimal_Cardboard_Width = [''23'']\<rparr>,
        \<lparr>Total_Items = 1, OK_Count = 0, OK_pct = Fin 0, No_OK_Count = 1,
          No_OK_pct = Fin 100\<rparr>) \<and>
   (23 :: real) < 23 + 1 / 2 ^ 60 \<and> (23 :: real) + 1 / 2 ^ 60 \<le> 39"
  using rounded_wrap_run by simp

text \<open>
  Claim C2, with the sum as the engine computes it. In a run that returns, the bucket of
  row \<open>k\<close> is \<^verbatim>\<open>No Fit\<close> when height or width is missing. Otherwise the widths are tried
  smallest first, 23 and then 39, and the first one that is at least \<open>wrap\<close> names the
  bucket, \<^verbatim>\<open>No Fit\<close> when neither is; where \<open>wrap\<close> is the exact sum of height and width
  when both columns are int64 columns and the sum is within the range of int64, and the
  sum of the two doubles, that is the exact sum rounded to the nearest double, when one
  of the two columns is a float64 column (an int64 entry is converted to a double
  first). The theorem says nothing about a sum of two int64 entries outside the range of
  int64.
\<close>

theorem cardboard_bucket_first_fit_on_the_computed_sum:
  assumes "process parse df ic hc wc lc = Inr (out, s)" and "k < length (rows df)"
  shows "(Height out ! k = F64 NaN \<or> Width out ! k = F64 NaN \<longrightarrow>
            Optimal_Cardboard_Width out ! k = ''No Fit'') \<and>
         (\<forall>i j. Height out ! k = I64 i \<and> Width out ! k = I64 j \<and>
                 - (2 ^ 63) \<le> sint i + sint j \<and> sint i + sint j < 2 ^ 63 \<longrightarrow>
            Optimal_Cardboard_Width out ! k =
              (if sint i + sint j \<le> 23 then ''23''
               else if sint i + sint j \<le> 39 then ''39'' else ''No Fit'')) \<and>
         (Height out ! k \<noteq> F64 NaN \<and> Width out ! k \<noteq> F64 NaN \<and>
          \<not> (is_int64 (Height out ! k) \<and> is_int64 (Width out ! k)) \<longrightarrow>
            Optimal_Cardboard_Width out ! k =
              (if f_le_int (f_add (to_float (Width out ! k)) (to_float (Height out ! k))) 23
               then ''23''
               else if f_le_int (f_add (to_float (Width out ! k)) (to_float (Height out ! k))) 39
               then ''39'' else ''No Fit'')) \<and>
         (\<forall>a b. Height out ! k = F64 (Fin a) \<and> Width out ! k = F64 (Fin b) \<longrightarrow>
            Optimal_Cardboard_Width out ! k =
              (if f_le_int (binary64 (b + a)) 23 then ''23''
               else if f_le_int (binary64 (b + a)) 39 then ''39'' else ''No Fit''))"
proof -
  note b = process_bucket [OF assms]
  have 1: "Optimal_Cardboard_Width out ! k = ''No Fit''"
    if "Height out ! k = F64 NaN \<or> Width out ! k = F64 NaN"
    using that by (simp add: b)
  have 2: "Optimal_Cardboard_Width out ! k =
      (if sint i + sint j \<le> 23 then ''23''
       else if sint i + sint j \<le> 39 then ''39'' else ''No Fit'')"
    if "Height out ! k = I64 i \<and> Width out ! k = I64 j \<and>
        - (2 ^ 63) \<le> sint i + sint j \<and> sint i + sint j < 2 ^ 63" for i j
    using that by (simp add: b num_add_int64)
  have 3: "Optimal_Cardboard_Width out ! k =
      (if f_le_int (f_add (to_float (Width out ! k)) (to_float (Height out ! k))) 23
       then ''23''
       else if f_le_int (f_add (to_float (Width out ! k)) (to_float (Height out ! k))) 39
       then ''39'' else ''No Fit'')"
    if "Height out ! k \<noteq> F64 NaN \<and> Width out ! k \<noteq> F64 NaN \<and>
        \<not> (is_int64 (Height out ! k) \<and> is_int64 (Width out ! k))"
  proof -
    from that have "num_add (Width out ! k) (Height out ! k) =
        F64 (f_add (to_float (Width out ! k)) (to_float (Height out ! k)))"
      by (intro num_add_float) blast
    with that show ?thesis
      by (simp add: b num_le_int_def)
  qed
  have 4: "Optimal_Cardboard_Width out ! k =
      (if f_le_int (binary64 (b + a)) 23 then ''23''
       else if f_le_int (binary64 (b + a)) 39 then ''39'' else ''No Fit'')"
    if "Height out ! k = F64 (Fin a) \<and> Width out ! k = F64 (Fin b)" for a b
    using that by (simp add: b f64_entries num_le_int_def)
  from 1 2 3 4 show ?thesis
    by blast
qed

text \<open>
  Three rows: height 10 in a float64 column and width 20 in an int64 column give
  \<^verbatim>\<open>39\<close>; a missing height gives \<^verbatim>\<open>No Fit\<close>; height 1 and width 1 in int64 columns give
  \<^verbatim>\<open>23\<close>.
\<close>

theorem cardboard_bucket_of_example_rows:
  "process example_parse example_df ''Item'' ''H'' ''W'' ''L'' = Inr (example_out, example_summary) \<and>
   Height example_out ! 0 = F64 (Fin 10) \<and> Width example_out ! 0 = I64 20 \<and>
   Optimal_Cardboard_Width example_out ! 0 = ''39'' \<and>
   Width example_out ! 2 = I64 20 \<and> Height example_out ! 2 = F64 NaN \<and>
   Optimal_Cardboard_Width example_out ! 2 = ''No Fit'' \<and>
   process example_parse many_rows_df ''Item'' ''H'' ''W'' ''L'' =
     Inr (many_rows_out, many_rows_summary) \<and>
   Height many_rows_out ! 0 = I64 1 \<and> Width many_rows_out ! 0 = I64 1 \<and>
   Optimal_Cardboard_Width many_rows_out ! 0 = ''23''"
proof -
  have k: "0 < length (rows example_df)" "2 < length (rows example_df)"
    by (simp_all add: example_rows_length)
  have m: "0 < length (rows many_rows_df)"
    by (simp add: many_rows_df_def)
  have c: "Height example_out ! 0 = F64 (Fin 10)" "Width example_out ! 0 = I64 20"
    "Width example_out ! 2 = I64 20" "Height example_out ! 2 = F64 NaN"
    by (simp_all add: example_out_def)
  have d: "Height many_rows_out ! 0 = I64 1" "Width many_rows_out ! 0 = I64 1"
    by (simp_all add: many_rows_out_def nth_append)
  have s: "- (2 ^ 63) \<le> sint (1 :: 64 word) + sint (1 :: 64 word)"
    "sint (1 :: 64 word) + sint (1 :: 64 word) < 2 ^ 63"
    by simp_all
  have f: "f_add (to_float (I64 20)) (to_float (F64 (Fin 10))) = Fin 30"
    by (simp add: to_float_def)
  note e = cardboard_bucket_first_fit_on_the_computed_sum [OF example_run]
  have "Optimal_Cardboard_Width example_out ! 0 = ''39''"
    using e [OF k(1)] by (simp add: c is_int64_def f f_le_int_def)
  moreover have "Optimal_Cardboard_Width example_out ! 2 = ''No Fit''"
    using e [OF k(2)] by (simp add: c)
  moreover have "Optimal_Cardboard_Width many_rows_out ! 0 = ''23''"
    using cardboard_bucket_first_fit_on_the_computed_sum [OF many_rows_run m] d s
    by simp
  ultimately show ?thesis
    using example_run many_rows_run c d by blast
qed


subsection \<open>Volume\<close>





lemma percentage_near:
  assumes "c \<le> t" "0 < t"
  shows "\<exists>v n. py_round2 (f_mul (binary64 (real c / real t)) (Fin 100)) = Fin v \<and>
           binary64 (of_int n / 100) = Fin v \<and>
           \<bar>v - real c / real t * 100\<bar> \<le> 1 / 200 + 1 / 2 ^ 39"
proof -
  define x where "x = real c / real t"
  define eps :: real where "eps = pow2 (- 46)"
  have eps: "0 \<le> eps" "eps \<le> 1 / 100" "128 * eps = 1 / 2 ^ 39"
    by (simp_all add: eps_def pow2_def)
  have x: "0 \<le> x" "x \<le> 1"
    using assms by (simp_all add: x_def)
  from x binary64_near [of x] obtain d
    where d: "binary64 x = Fin d" "\<bar>d - x\<bar> \<le> eps"
    unfolding eps_def by auto
  have "\<bar>d * 100\<bar> \<le> 128"
    using x d(2) eps(2) by linarith
  with binary64_near [of "d * 100"] obtain p
    where p: "binary64 (d * 100) = Fin p" "\<bar>p - d * 100\<bar> \<le> eps"
    unfolding eps_def by auto
  define n where "n = round_half_even (p * 100)"
  define m :: real where "m = of_int n / 100"
  have "\<bar>of_int n - p * 100\<bar> \<le> 1 / 2"
    unfolding n_def by (rule round_half_even_near)
  then have n: "\<bar>m - p\<bar> \<le> 1 / 200"
    unfolding m_def by (simp add: abs_le_iff field_simps)
  have "\<bar>m\<bar> \<le> 128"
    using x d(2) p(2) n eps(2) by linarith
  with binary64_near [of m] obtain v
    where v: "binary64 m = Fin v" "\<bar>v - m\<bar> \<le> eps"
    unfolding eps_def by auto
  have "py_round2 (f_mul (binary64 x) (Fin 100)) = Fin v"
    using d(1) p(1) v(1) by (simp add: py_round2_def n_def m_def)
  moreover have "\<bar>v - x * 100\<bar> \<le> 1 / 200 + 128 * eps"
    using d(2) p(2) n v(2) eps(1) by linarith
  ultimately show ?thesis
    using v(1) unfolding x_def m_def eps(3) by blast
qed

lemma filter_le_length: "length (filter P xs) \<le> length xs"
  by simp

subsection \<open>Summary percentages\<close>

text \<open>
  The percentage is computed in doubles. With 23 rows \<^verbatim>\<open>OK\<close> out of 160 the exact
  percentage is 14.375; the quotient and its product with 100 are rounded to the double
  just below 14.375, which \<^verbatim>\<open>round\<close> takes to the double nearest to 14.37. That double
  is below 14.37, and more than half a hundredth away from the exact percentage.
\<close>

theorem percentage_of_23_in_160_rounds_down:
  "process example_parse many_rows_df ''Item'' ''H'' ''W'' ''L'' =
     Inr (many_rows_out, many_rows_summary) \<and>
   Total_Items many_rows_summary = 160 \<and> OK_Count many_rows_summary = 23 \<and>
   OK_pct many_rows_summary = Fin (8089590830664253 / 2 ^ 49) \<and>
   (23 :: real) / 160 * 100 = 14375 / 1000 \<and>
   (8089590830664253 :: real) / 2 ^ 49 < 1437 / 100 \<and>
   (1 :: real) / 200 < \<bar>8089590830664253 / 2 ^ 49 - 23 / 160 * 100\<bar>"
  using many_rows_run by (simp add: many_rows_summary_def)

text \<open>
  Claim C5, with the percentage as the engine computes it. For every table whose selected
  columns exist the run returns. With no rows both percentages are 0.0, and no division
  takes place. Otherwise each percentage is \<^verbatim>\<open>round(count / total * 100, 2)\<close> in doubles:
  the quotient rounded to a double, its product with 100 rounded to a double, and that
  double rounded to hundredths. The result is the double nearest to a whole number of
  hundredths, and it is within \<open>1 / 200 + 2 ^ -39\<close> of the exact percentage.
\<close>

theorem percentages_are_rounded_doubles:
  assumes "ic \<in> set (columns df)" "hc \<in> set (columns df)" "wc \<in> set (columns df)"
    "lc \<in> set (columns df)"
  shows "\<exists>out s. process parse df ic hc wc lc = Inr (out, s) \<and>
           (rows df = [] \<longrightarrow> OK_pct s = Fin 0 \<and> No_OK_pct s = Fin 0) \<and>
           (rows df \<noteq> [] \<longrightarrow>
              OK_pct s =
                py_round2 (f_mul (binary64 (real (OK_Count s) / real (Total_Items s))) (Fin 100)) \<and>
              No_OK_pct s =
                py_round2 (f_mul (binary64 (real (No_OK_Count s) / real (Total_Items s)))
                  (Fin 100)) \<and>
              (\<exists>v n. OK_pct s = Fin v \<and> binary64 (of_int n / 100) = Fin v \<and>
                 \<bar>v - real (OK_Count s) / real (Total_Items s) * 100\<bar> \<le> 1 / 200 + 1 / 2 ^ 39) \<and>
              (\<exists>v n. No_OK_pct s = Fin v \<and> binary64 (of_int n / 100) = Fin v \<and>
                 \<bar>v - real (No_OK_Count s) / real (Total_Items s) * 100\<bar> \<le> 1 / 200 + 1 / 2 ^ 39))"
proof -
  from process_present [OF assms] obtain out s
    where r: "process parse df ic hc wc lc = Inr (out, s)"
    by blast
  note q = process_summary [OF r]
  note c = process_counts [OF r]
  have z: "OK_pct s = Fin 0 \<and> No_OK_pct s = Fin 0" if "rows df = []"
    using that by (simp add: q(4,5))
  have nz: "OK_pct s =
        py_round2 (f_mul (binary64 (real (OK_Count s) / real (Total_Items s))) (Fin 100)) \<and>
      No_OK_pct s =
        py_round2 (f_mul (binary64 (real (No_OK_Count s) / real (Total_Items s))) (Fin 100)) \<and>
      (\<exists>v n. OK_pct s = Fin v \<and> binary64 (of_int n / 100) = Fin v \<and>
         \<bar>v - real (OK_Count s) / real (Total_Items s) * 100\<bar> \<le> 1 / 200 + 1 / 2 ^ 39) \<and>
      (\<exists>v n. No_OK_pct s = Fin v \<and> binary64 (of_int n / 100) = Fin v \<and>
         \<bar>v - real (No_OK_Count s) / real (Total_Items s) * 100\<bar> \<le> 1 / 200 + 1 / 2 ^ 39)"
    if "rows df \<noteq> []"
  proof -
    from that have t: "0 < Total_Items s"
      by (simp add: q(1))
    have le: "OK_Count s \<le> Total_Items s" "No_OK_Count s \<le> Total_Items s"
      using c by (simp_all add: q(1))
    have a: "OK_pct s =
        py_round2 (f_mul (binary64 (real (OK_Count s) / real (Total_Items s))) (Fin 100))"
      using that by (subst q(4)) (simp add: q(1))
    have b: "No_OK_pct s =
        py_round2 (f_mul (binary64 (real (No_OK_Count s) / real (Total_Items s))) (Fin 100))"
      using that by (subst q(5)) (simp add: q(1))
    from percentage_near [OF le(1) t] percentage_near [OF le(2) t] a b show ?thesis
      by simp
  qed
  from r z nz show ?thesis
    by blast
qed

text \<open>
  The example table, 4 rows \<^verbatim>\<open>OK\<close> out of 8, has 50.0; the table without rows has 0.0
  twice.
\<close>

theorem percentages_of_the_example_and_of_the_empty_table:
  "''Item'' \<in> set (columns example_df) \<and> ''H'' \<in> set (columns example_df) \<and>
   ''W'' \<in> set (columns example_df) \<and> ''L'' \<in> set (columns example_df) \<and>
   rows example_df \<noteq> [] \<and>
   process example_parse example_df ''Item'' ''H'' ''W'' ''L'' = Inr (example_out, example_summary) \<and>
   OK_Count example_summary = 4 \<and> Total_Items example_summary = 8 \<and>
   OK_pct example_summary = Fin 50 \<and>
   py_round2 (f_mul (binary64 (real 4 / real 8)) (Fin 100)) = Fin 50 \<and>
   rows empty_df = [] \<and>
   (\<exists>out s. process example_parse empty_df ''Item'' ''H'' ''W'' ''L'' = Inr (out, s) \<and>
      OK_pct s = Fin 0 \<and> No_OK_pct s = Fin 0)"
proof -
  have ne: "rows example_df \<noteq> []"
    by (simp add: example_df_def)
  have s: "OK_Count example_summary = 4" "Total_Items example_summary = 8"
    "OK_pct example_summary = Fin 50"
    by (simp_all add: example_summary_def)
  from percentages_are_rounded_doubles [OF example_columns, of example_parse] ne
  have "OK_pct example_summary =
      py_round2 (f_mul (binary64 (real (OK_Count example_summary) /
        real (Total_Items example_summary))) (Fin 100))"
    by (simp add: example_run)
  then have p: "py_round2 (f_mul (binary64 (real 4 / real 8)) (Fin 100)) = Fin 50"
    by (simp only: s)
  have c: "''Item'' \<in> set (columns empty_df)" "''H'' \<in> set (columns empty_df)"
    "''W'' \<in> set (columns empty_df)" "''L'' \<in> set (columns empty_df)"
    by (simp_all add: empty_df_def)
  have e: "rows empty_df = []"
    by (simp add: empty_df_def)
  from percentages_are_rounded_doubles [OF c, of example_parse] e
  have "\<exists>out s. process example_parse empty_df ''Item'' ''H'' ''W'' ''L'' = Inr (out, s) \<and>
      OK_pct s = Fin 0 \<and> No_OK_pct s = Fin 0"
    by auto
  with example_columns ne example_run s p e show ?thesis
    by blast
qed

subsection \<open>No lower bound on the dimensions\<close>

text \<open>
  Claim C10, at the row of height \<open>- 2 ^ 63\<close>, width \<open>-1\<close> and length 1 in int64 columns.
  The row is valid and its status is \<^verbatim>\<open>OK\<close>: no lower bound is checked. Its
  \<open>wrap = height + width\<close> is negative, \<open>- 2 ^ 63 - 1\<close>, but the sum of line 33 is taken
  in 64 bits and wraps around to \<open>2 ^ 63 - 1\<close>, so the bucket is \<^verbatim>\<open>No Fit\<close> and not the
  bucket \<^verbatim>\<open>23\<close> of the smallest width.
\<close>

theorem negative_wrap_beyond_int64_gets_no_fit:
  "process example_parse
     (one_row_df (Num (I64 (- 9223372036854775808))) (Num (I64 (- 1))) (Num (I64 1)))
     ''Item'' ''H'' ''W'' ''L'' =
   Inr (\<lparr>Item_ID = [Str ''a''], Height = [I64 (- 9223372036854775808)], Width = [I64 (- 1)],
          Length = [I64 1], Volume = [I64 (- 9223372036854775808)], Status = [''OK''],
          Optimal_Cardboard_Width = [''No Fit'']\<rparr>,
        \<lparr>Total_Items = 1, OK_Count = 1, OK_pct = Fin 100, No_OK_Count = 0,
          No_OK_pct = Fin 0\<rparr>) \<and>
   sint (- 9223372036854775808 :: 64 word) + sint (- 1 :: 64 word) = - 9223372036854775809 \<and>
   sint ((- 1 :: 64 word) + (- 9223372036854775808)) = 9223372036854775807 \<and>
   py_str (CARDBOARD_OPTIONS ! 0) = ''23''"
  using wrap_underflow_run by (simp add: CARDBOARD_OPTIONS_def py_str_23)

end
